theory Spec2Isabelle
  imports Complex_Main "HOL-Library.Multiset"
begin

section \<open>Medical bill translation: \<open>scripts/translate_bill.py\<close>\<close>

text \<open>
  A shallow embedding of the parsing and rule-evaluation pipeline of
  \<open>scripts/translate_bill.py\<close>. Python strings are modelled as \<open>string\<close>, restricted to
  the code points below 256; Python integers are \<open>int\<close>; a Python exception that leaves a
  function is a value \<open>Inl e\<close> of a sum type.
\<close>

subsection \<open>Python built-ins used by the script\<close>

datatype error = ValueError | KeyError | AttributeError | CsvError | OSError

definition NL :: char where "NL = CHR 0x0A"
definition CR :: char where "CR = CHR 0x0D"
definition TAB :: char where "TAB = CHR 0x09"
definition QUOTE :: char where "QUOTE = CHR 0x22"
definition APOS :: char where "APOS = CHR 0x27"
definition BACKTICK :: char where "BACKTICK = CHR 0x60"

text \<open>\<open>str.isspace\<close> on one character (code points below 256).\<close>

definition isspace :: "char \<Rightarrow> bool" where
  "isspace c = (let n = (of_char c :: int) in
     (9 \<le> n \<and> n \<le> 13) \<or> (28 \<le> n \<and> n \<le> 32) \<or> n = 133 \<or> n = 160)"

text \<open>\<open>str.strip()\<close>.\<close>

definition strip :: "string \<Rightarrow> string" where
  "strip s = rev (dropWhile isspace (rev (dropWhile isspace s)))"

text \<open>
  The white space that \<open>int()\<close> and \<open>float()\<close> skip at both ends of a string: the ASCII
  white space of C, and the white space above 127, which they first turn into spaces. The
  separators \<open>\x1c\<close> to \<open>\x1f\<close>, which \<open>str.strip()\<close> removes, are not among it.
\<close>

definition is_cspace :: "char \<Rightarrow> bool" where
  "is_cspace c = (let n = (of_char c :: int) in
     (9 \<le> n \<and> n \<le> 13) \<or> n = 32 \<or> n = 133 \<or> n = 160)"

definition number_strip :: "string \<Rightarrow> string" where
  "number_strip s = rev (dropWhile is_cspace (rev (dropWhile is_cspace s)))"

text \<open>\<open>sep.join(xs)\<close>.\<close>

fun join :: "string \<Rightarrow> string list \<Rightarrow> string" where
  "join sep [] = []"
| "join sep [x] = x"
| "join sep (x # y # ys) = x @ sep @ join sep (y # ys)"

definition is_digit :: "char \<Rightarrow> bool" where
  "is_digit c = (let n = (of_char c :: int) in 48 \<le> n \<and> n \<le> 57)"

definition digit_val :: "char \<Rightarrow> int" where
  "digit_val c = of_char c - 48"

definition digit_char :: "int \<Rightarrow> char" where
  "digit_char n = char_of (48 + n mod 10)"

text \<open>The value of a string of decimal digits, most significant first.\<close>

definition digits_val :: "string \<Rightarrow> int" where
  "digits_val ds = foldl (\<lambda>n c. 10 * n + digit_val c) 0 ds"

text \<open>\<open>str(n)\<close> for a natural number.\<close>

fun str_nat :: "nat \<Rightarrow> string" where
  "str_nat n =
     (if n < 10 then [digit_char (int n)] else str_nat (n div 10) @ [digit_char (int n)])"

declare str_nat.simps [simp del]

text \<open>\<open>str(n)\<close> for an integer that is not negative.\<close>

function str_int :: "int \<Rightarrow> string" where
  "str_int n = (if n < 10 then [digit_char n] else str_int (n div 10) @ [digit_char n])"
  by pat_completeness auto
termination
  by (relation "measure nat") auto

declare str_int.simps [simp del]

subsection \<open>Calendar dates\<close>

text \<open>\<open>datetime.date\<close>: year, month and day; dates compare as the triples do.\<close>

record date =
  year :: int
  month :: int
  day :: int

definition date_less :: "date \<Rightarrow> date \<Rightarrow> bool" where
  "date_less a b = (year a < year b \<or> (year a = year b \<and>
     (month a < month b \<or> (month a = month b \<and> day a < day b))))"

definition is_leap :: "int \<Rightarrow> bool" where
  "is_leap y = (y mod 4 = 0 \<and> (y mod 100 \<noteq> 0 \<or> y mod 400 = 0))"

definition days_in_month :: "int \<Rightarrow> int \<Rightarrow> int" where
  "days_in_month y m =
     (if m = 2 then (if is_leap y then 29 else 28)
      else if m = 4 \<or> m = 6 \<or> m = 9 \<or> m = 11 then 30 else 31)"

text \<open>
  The constructor \<open>date(y, m, d)\<close>: ValueError outside year 1..9999, month 1..12 or the
  days of the month.
\<close>

definition mk_date :: "int \<Rightarrow> int \<Rightarrow> int \<Rightarrow> date option" where
  "mk_date y m d =
     (if 1 \<le> y \<and> y \<le> 9999 \<and> 1 \<le> m \<and> m \<le> 12 \<and> 1 \<le> d \<and> d \<le> days_in_month y m
      then Some \<lparr>year = y, month = m, day = d\<rparr> else None)"

text \<open>
  The values of \<open>datetime.date\<close> are the triples that the constructor accepts.
\<close>

definition valid_date :: "date \<Rightarrow> bool" where
  "valid_date d = (mk_date (year d) (month d) (day d) = Some d)"

text \<open>
  The month directive \<open>%m\<close> of \<open>strptime\<close> is the regular expression
  \<open>1[0-2]|0[1-9]|[1-9]\<close>; in the format \<open>%Y-%m-%d\<close> it is followed by a hyphen. The result is
  the month and the text after the hyphen.
\<close>

fun strptime_month :: "string \<Rightarrow> (int \<times> string) option" where
  "strptime_month (a # b # c # rest) =
     (if (a = CHR ''1'' \<and> b \<in> set ''012'' \<or> a = CHR ''0'' \<and> b \<in> set ''123456789'') \<and> c = CHR ''-''
      then Some (digits_val [a, b], rest)
      else if a \<in> set ''123456789'' \<and> b = CHR ''-'' then Some (digit_val a, c # rest)
      else None)"
| "strptime_month [a, b] =
     (if a \<in> set ''123456789'' \<and> b = CHR ''-'' then Some (digit_val a, []) else None)"
| "strptime_month _ = None"

text \<open>
  The day directive \<open>%d\<close> is \<open>3[0-1]|[1-2]\d|0[1-9]|[1-9]| [1-9]\<close>, the last directive of
  the format: the first alternative that matches is taken and must end the text
  (\<open>unconverted data remains\<close> otherwise).
\<close>

fun strptime_day :: "string \<Rightarrow> int option" where
  "strptime_day [a, b] =
     (if a = CHR ''3'' \<and> b \<in> set ''01'' \<or> a \<in> set ''12'' \<and> is_digit b
         \<or> a = CHR ''0'' \<and> b \<in> set ''123456789''
      then Some (digits_val [a, b])
      else if a = CHR '' '' \<and> b \<in> set ''123456789'' then Some (digit_val b)
      else None)"
| "strptime_day [a] = (if a \<in> set ''123456789'' then Some (digit_val a) else None)"
| "strptime_day _ = None"

text \<open>
  \<open>datetime.strptime(s, "%Y-%m-%d").date()\<close>; \<open>None\<close> is the ValueError. The year
  directive \<open>%Y\<close> is four digits.
\<close>

definition strptime_ymd :: "string \<Rightarrow> date option" where
  "strptime_ymd s =
     (case s of
        y1 # y2 # y3 # y4 # h # rest \<Rightarrow>
          if is_digit y1 \<and> is_digit y2 \<and> is_digit y3 \<and> is_digit y4 \<and> h = CHR ''-'' then
            (case strptime_month rest of
               None \<Rightarrow> None
             | Some (m, rest') \<Rightarrow>
                 (case strptime_day rest' of
                    None \<Rightarrow> None
                  | Some d \<Rightarrow> mk_date (digits_val [y1, y2, y3, y4]) m d))
          else None
      | _ \<Rightarrow> None)"

text \<open>
  \<open>d.strftime("%Y-%m-%d")\<close>: the C library writes the year without padding (\<open>999-01-01\<close>)
  and the month and the day with two digits.
\<close>

definition pad2 :: "int \<Rightarrow> string" where
  "pad2 n = [digit_char (n div 10), digit_char n]"

definition strftime_ymd :: "date \<Rightarrow> string" where
  "strftime_ymd d = str_int (year d) @ ''-'' @ pad2 (month d) @ ''-'' @ pad2 (day d)"

subsection \<open>Floating-point amounts\<close>

text \<open>
  A Python \<open>float\<close>: the exact rational value of a finite double, the two infinities, or
  NaN. The two zeros are one value here; they are equal under \<open>==\<close> and neither is \<open>> 0\<close>.
\<close>

datatype pyfloat = Finite rat | PosInf | NegInf | NaN

text \<open>\<open>x > 0\<close>.\<close>

fun float_gt0 :: "pyfloat \<Rightarrow> bool" where
  "float_gt0 (Finite q) = (0 < q)"
| "float_gt0 PosInf = True"
| "float_gt0 NegInf = False"
| "float_gt0 NaN = False"

text \<open>\<open>x >= 0\<close>.\<close>

fun float_ge0 :: "pyfloat \<Rightarrow> bool" where
  "float_ge0 (Finite q) = (0 \<le> q)"
| "float_ge0 PosInf = True"
| "float_ge0 NegInf = False"
| "float_ge0 NaN = False"

text \<open>\<open>x == y\<close> on two distinct float objects: NaN equals nothing.\<close>

definition float_eq :: "pyfloat \<Rightarrow> pyfloat \<Rightarrow> bool" where
  "float_eq a b = (a \<noteq> NaN \<and> a = b)"

subsection \<open>Data model\<close>

text \<open>One value of the dict built by \<open>load_code_definitions\<close>.\<close>

record code_def =
  def_code_type :: string
  official_description :: string
  plain_english :: string
  status :: string
  effective_date :: string

text \<open>One dict of the list \<open>rows\<close> returned by \<open>parse_line_items\<close>.\<close>

record line_item =
  line_id :: int
  date_of_service :: date
  code :: string
  code_type :: string
  units :: int
  charge :: pyfloat
  bill_label :: string

text \<open>One dict of \<open>section2\<close>.\<close>

record entry =
  e_line_id :: int
  e_dos :: string
  e_code :: string
  e_code_type :: string
  official_desc :: string
  plain_eng :: string
  e_units :: int
  e_charge :: pyfloat
  e_notes :: string

text \<open>One dict of \<open>clarifications\<close>.\<close>

record clarification =
  c_line_id :: int
  c_code :: string
  reasons :: "string list"

text \<open>One dict of \<open>dup_groups\<close>.\<close>

record dup_group =
  group_number :: int
  line_ids :: "int list"
  g_dos :: string
  g_code :: string
  g_units :: int
  g_charge :: pyfloat

type_synonym code_defs = "string \<rightharpoonup> code_def"

subsection \<open>Text helpers\<close>

text \<open>\<open>str.lower()\<close> on the code points below 256.\<close>

definition lower_char :: "char \<Rightarrow> char" where
  "lower_char c = (let n = (of_char c :: int) in
     if (65 \<le> n \<and> n \<le> 90) \<or> (192 \<le> n \<and> n \<le> 222 \<and> n \<noteq> 215) then char_of (n + 32) else c)"

definition lower :: "string \<Rightarrow> string" where
  "lower s = map lower_char s"

text \<open>\<open>s.replace(c, "")\<close> for a one-character \<open>c\<close>.\<close>

definition remove_char :: "char \<Rightarrow> string \<Rightarrow> string" where
  "remove_char c s = filter (\<lambda>x. x \<noteq> c) s"

text \<open>
  \<open>str.splitlines()\<close>: the line boundaries below 256 are \<open>\n\<close>, \<open>\r\<close>, \<open>\r\n\<close>,
  \<open>\v\<close>, \<open>\f\<close>, \<open>\x1c\<close>, \<open>\x1d\<close>, \<open>\x1e\<close> and \<open>\x85\<close>; the boundaries are dropped and
  there is no empty last line.
\<close>

definition is_linebreak :: "char \<Rightarrow> bool" where
  "is_linebreak c = (let n = (of_char c :: int) in
     (10 \<le> n \<and> n \<le> 13) \<or> (28 \<le> n \<and> n \<le> 30) \<or> n = 133)"

fun splitlines_from :: "string \<Rightarrow> string \<Rightarrow> string list" where
  "splitlines_from cur [] = (if cur = [] then [] else [cur])"
| "splitlines_from cur (c # cs) =
     (if c = CR then
        (case cs of
           [] \<Rightarrow> [cur]
         | d # ds \<Rightarrow> if d = NL then cur # splitlines_from [] ds else cur # splitlines_from [] cs)
      else if is_linebreak c then cur # splitlines_from [] cs
      else splitlines_from (cur @ [c]) cs)"

definition splitlines :: "string \<Rightarrow> string list" where
  "splitlines s = splitlines_from [] s"

text \<open>
  Iterating over \<open>io.StringIO(s)\<close>: the lines end after each \<open>\n\<close>, which they keep.
\<close>

fun stringio_from :: "string \<Rightarrow> string \<Rightarrow> string list" where
  "stringio_from cur [] = (if cur = [] then [] else [cur])"
| "stringio_from cur (c # cs) =
     (if c = NL then (cur @ [c]) # stringio_from [] cs else stringio_from (cur @ [c]) cs)"

definition stringio_lines :: "string \<Rightarrow> string list" where
  "stringio_lines s = stringio_from [] s"

text \<open>
  Iterating over a text file opened with \<open>newline=""\<close>: the lines end after \<open>\n\<close>, \<open>\r\<close>
  or \<open>\r\n\<close>, which they keep.
\<close>

fun file_from :: "string \<Rightarrow> string \<Rightarrow> string list" where
  "file_from cur [] = (if cur = [] then [] else [cur])"
| "file_from cur (c # cs) =
     (if c = NL then (cur @ [c]) # file_from [] cs
      else if c = CR then
        (case cs of
           [] \<Rightarrow> [cur @ [c]]
         | d # ds \<Rightarrow> if d = NL then (cur @ [c, d]) # file_from [] ds
                    else (cur @ [c]) # file_from [] cs)
      else file_from (cur @ [c]) cs)"

definition file_lines :: "string \<Rightarrow> string list" where
  "file_lines s = file_from [] s"

subsection \<open>\<open>int()\<close> and \<open>float()\<close> on strings\<close>

text \<open>
  Decimal digits with single underscores between them, as \<open>int()\<close> accepts after the sign.
\<close>

fun digits_us :: "string \<Rightarrow> bool" where
  "digits_us [] = False"
| "digits_us [c] = is_digit c"
| "digits_us (c # d # cs) =
     (is_digit c \<and> (if d = CHR ''_'' then digits_us cs else digits_us (d # cs)))"

text \<open>
  \<open>int(s)\<close> for a string; \<open>None\<close> is the ValueError, which is also raised for more than
  4300 digits, the interpreter's default limit for one conversion.
\<close>

definition max_str_digits :: int where
  "max_str_digits = 4300"

definition py_int :: "string \<Rightarrow> int option" where
  "py_int s =
     (case number_strip s of
        [] \<Rightarrow> None
      | c # cs \<Rightarrow>
          let neg = (c = CHR ''-'');
              ds = (if c = CHR ''-'' \<or> c = CHR ''+'' then cs else c # cs)
          in if digits_us ds \<and> int (length (remove_char (CHR ''_'') ds)) \<le> max_str_digits then
               Some ((if neg then - 1 else 1) * digits_val (remove_char (CHR ''_'') ds))
             else None)"

text \<open>The number of binary digits of a positive integer.\<close>

function bit_length :: "int \<Rightarrow> int" where
  "bit_length n = (if n \<le> 0 then 0 else 1 + bit_length (n div 2))"
  by pat_completeness auto
termination
  by (relation "measure nat") auto

declare bit_length.simps [simp del]

definition pow2 :: "int \<Rightarrow> rat" where
  "pow2 t = (if 0 \<le> t then 2 ^ nat t else 1 / 2 ^ nat (- t))"

text \<open>The integer \<open>e\<close> with \<open>2 ^ e \<le> a < 2 ^ (e + 1)\<close>, for a positive rational \<open>a\<close>.\<close>

definition floor_log2 :: "rat \<Rightarrow> int" where
  "floor_log2 a =
     (let (n, d) = quotient_of a;
          k = bit_length n - bit_length d
      in if pow2 k \<le> a then k else k - 1)"

definition round_half_even :: "rat \<Rightarrow> int" where
  "round_half_even x =
     (let f = \<lfloor>x\<rfloor>; r = x - of_int f
      in if r < 1 / 2 then f else if 1 / 2 < r then f + 1 else if even f then f else f + 1)"

text \<open>
  The double nearest to a rational, ties to even: 53 significant bits, least exponent
  \<open>-1074\<close>; a rounded value \<open>m * 2 ^ t\<close> of \<open>2 ^ 1024\<close> or more, that is, with more than
  1024 binary digits before the point, overflows to an infinity.
\<close>

definition round_double :: "rat \<Rightarrow> pyfloat" where
  "round_double q =
     (if q = 0 then Finite 0
      else
        let a = \<bar>q\<bar>;
            t = max (floor_log2 a - 52) (- 1074);
            m = round_half_even (a / pow2 t)
        in if 1024 < t + bit_length m then (if q < 0 then NegInf else PosInf)
           else Finite (if q < 0 then - (of_int m * pow2 t) else of_int m * pow2 t))"

text \<open>
  The decimal literal of \<open>float()\<close> after the sign: digits, an optional point and digits,
  at least one digit in all, and an optional exponent; the result is its exact value.
\<close>

definition exponent_part :: "string \<Rightarrow> int option" where
  "exponent_part s =
     (case s of
        [] \<Rightarrow> Some 0
      | e # r \<Rightarrow>
          if e = CHR ''e'' \<or> e = CHR ''E'' then
            (case r of
               [] \<Rightarrow> None
             | c # cs \<Rightarrow>
                 let ds = (if c = CHR ''-'' \<or> c = CHR ''+'' then cs else c # cs)
                 in if ds \<noteq> [] \<and> list_all is_digit ds then
                      Some ((if c = CHR ''-'' then - 1 else 1) * digits_val ds)
                    else None)
          else None)"

definition decimal_literal :: "string \<Rightarrow> rat option" where
  "decimal_literal u =
     (let ip = takeWhile is_digit u; r = dropWhile is_digit u;
          fp = (case r of [] \<Rightarrow> [] | c # cs \<Rightarrow> if c = CHR ''.'' then takeWhile is_digit cs else []);
          r' = (case r of [] \<Rightarrow> [] | c # cs \<Rightarrow> if c = CHR ''.'' then dropWhile is_digit cs else r)
      in if ip @ fp = [] then None
         else (case exponent_part r' of
                 None \<Rightarrow> None
               | Some ex \<Rightarrow>
                   let e10 = ex - int (length fp)
                   in Some (of_int (digits_val (ip @ fp)) *
                            (if 0 \<le> e10 then 10 ^ nat e10 else 1 / 10 ^ nat (- e10)))))"

text \<open>The literal of \<open>float()\<close> after stripping: sign, then a special value or a decimal.\<close>

definition float_literal :: "string \<Rightarrow> pyfloat option" where
  "float_literal t =
     (case t of
        [] \<Rightarrow> None
      | c # cs \<Rightarrow>
          let neg = (c = CHR ''-'');
              u = (if c = CHR ''-'' \<or> c = CHR ''+'' then cs else c # cs)
          in if lower u = ''inf'' \<or> lower u = ''infinity'' then Some (if neg then NegInf else PosInf)
             else if lower u = ''nan'' then Some NaN
             else (case decimal_literal u of
                     None \<Rightarrow> None
                   | Some q \<Rightarrow> Some (round_double (if neg then - q else q))))"

text \<open>An underscore of a \<open>float()\<close> literal must stand between two digits.\<close>

fun underscores_ok :: "char option \<Rightarrow> string \<Rightarrow> bool" where
  "underscores_ok prev [] = (prev \<noteq> Some (CHR ''_''))"
| "underscores_ok prev (c # cs) =
     (if c = CHR ''_'' then
        (case prev of None \<Rightarrow> False | Some p \<Rightarrow> is_digit p) \<and> underscores_ok (Some c) cs
      else (prev = Some (CHR ''_'') \<longrightarrow> is_digit c) \<and> underscores_ok (Some c) cs)"

text \<open>\<open>float(s)\<close> for a string; \<open>None\<close> is the ValueError.\<close>

definition py_float :: "string \<Rightarrow> pyfloat option" where
  "py_float s =
     (let t = number_strip s
      in if CHR ''_'' \<in> set t then
           (if underscores_ok None t then float_literal (remove_char (CHR ''_'') t) else None)
         else float_literal t)"

subsection \<open>The script's helpers\<close>

definition NO_RESPONSE :: string where
  "NO_RESPONSE = ''_No response_''"

text \<open>\<open>blank(val)\<close>.\<close>

definition blank :: "string option \<Rightarrow> bool" where
  "blank val = (case val of None \<Rightarrow> True | Some v \<Rightarrow> strip v = [] \<or> strip v = NO_RESPONSE)"

text \<open>\<open>parse_money(val)\<close>; \<open>None\<close> is the ValueError of \<open>float\<close>.\<close>

definition parse_money :: "string \<Rightarrow> pyfloat option" where
  "parse_money val = py_float (remove_char (CHR '','') (remove_char (CHR ''$'') (strip val)))"

text \<open>The text that \<open>float\<close> reads in \<open>parse_money\<close>, after its own stripping.\<close>

definition amount_text :: "string \<Rightarrow> string" where
  "amount_text val =
     number_strip (remove_char (CHR '','') (remove_char (CHR ''$'') (strip val)))"

text \<open>\<open>detect_delimiter(text)\<close>.\<close>

definition detect_delimiter :: "string \<Rightarrow> char" where
  "detect_delimiter text =
     (case filter (\<lambda>l. strip l \<noteq> []) (splitlines (strip text)) of
        [] \<Rightarrow> CHR '',''
      | header # _ \<Rightarrow>
          let tab_count = count_list header TAB; comma_count = count_list header (CHR '','')
          in if tab_count \<ge> comma_count \<and> tab_count > 0 then TAB else CHR '','')"

subsection \<open>The \<open>csv\<close> reader\<close>

text \<open>
  The states of the reader that the default dialect reaches: no escape character, no
  skipping of initial spaces, not strict, the double quote as quote character, doubled
  inside a quoted field.
\<close>

datatype csv_state =
  START_RECORD | START_FIELD | IN_FIELD | IN_QUOTED_FIELD | QUOTE_IN_QUOTED_FIELD | EAT_CRNL

text \<open>The reader: its state, the fields of the record so far, the field being read.\<close>

record reader =
  state :: csv_state
  saved :: "string list"
  field :: string

definition field_limit :: int where
  "field_limit = 131072"

definition parse_reset :: reader where
  "parse_reset = \<lparr>state = START_RECORD, saved = [], field = []\<rparr>"

definition parse_save_field :: "reader \<Rightarrow> reader" where
  "parse_save_field r = r\<lparr>saved := saved r @ [field r], field := []\<rparr>"

definition parse_add_char :: "reader \<Rightarrow> char \<Rightarrow> error + reader" where
  "parse_add_char r c =
     (if int (length (field r)) \<ge> field_limit then Inl CsvError else Inr (r\<lparr>field := field r @ [c]\<rparr>))"

text \<open>
  One step of the reader on a character of the line, or on the end of the line (\<open>None\<close>).
  The first function is the state \<open>START_FIELD\<close>, which \<open>START_RECORD\<close> falls through to.
\<close>

definition start_field :: "char \<Rightarrow> reader \<Rightarrow> char option \<Rightarrow> error + reader" where
  "start_field delimiter r c =
     (case c of
        None \<Rightarrow> Inr ((parse_save_field r)\<lparr>state := START_RECORD\<rparr>)
      | Some ch \<Rightarrow>
          if ch = NL \<or> ch = CR then Inr ((parse_save_field r)\<lparr>state := EAT_CRNL\<rparr>)
          else if ch = QUOTE then Inr (r\<lparr>state := IN_QUOTED_FIELD\<rparr>)
          else if ch = delimiter then Inr (parse_save_field r)
          else (case parse_add_char r ch of
                  Inl e \<Rightarrow> Inl e
                | Inr r' \<Rightarrow> Inr (r'\<lparr>state := IN_FIELD\<rparr>)))"

definition parse_process_char :: "char \<Rightarrow> reader \<Rightarrow> char option \<Rightarrow> error + reader" where
  "parse_process_char delimiter r c =
     (case state r of
        START_RECORD \<Rightarrow>
          (case c of
             None \<Rightarrow> Inr r
           | Some ch \<Rightarrow>
               if ch = NL \<or> ch = CR then Inr (r\<lparr>state := EAT_CRNL\<rparr>)
               else start_field delimiter (r\<lparr>state := START_FIELD\<rparr>) c)
      | START_FIELD \<Rightarrow> start_field delimiter r c
      | IN_FIELD \<Rightarrow>
          (case c of
             None \<Rightarrow> Inr ((parse_save_field r)\<lparr>state := START_RECORD\<rparr>)
           | Some ch \<Rightarrow>
               if ch = NL \<or> ch = CR then Inr ((parse_save_field r)\<lparr>state := EAT_CRNL\<rparr>)
               else if ch = delimiter then Inr ((parse_save_field r)\<lparr>state := START_FIELD\<rparr>)
               else parse_add_char r ch)
      | IN_QUOTED_FIELD \<Rightarrow>
          (case c of
             None \<Rightarrow> Inr r
           | Some ch \<Rightarrow>
               if ch = QUOTE then Inr (r\<lparr>state := QUOTE_IN_QUOTED_FIELD\<rparr>)
               else parse_add_char r ch)
      | QUOTE_IN_QUOTED_FIELD \<Rightarrow>
          (case c of
             None \<Rightarrow> Inr ((parse_save_field r)\<lparr>state := START_RECORD\<rparr>)
           | Some ch \<Rightarrow>
               if ch = QUOTE then
                 (case parse_add_char r ch of
                    Inl e \<Rightarrow> Inl e
                  | Inr r' \<Rightarrow> Inr (r'\<lparr>state := IN_QUOTED_FIELD\<rparr>))
               else if ch = delimiter then Inr ((parse_save_field r)\<lparr>state := START_FIELD\<rparr>)
               else if ch = NL \<or> ch = CR then Inr ((parse_save_field r)\<lparr>state := EAT_CRNL\<rparr>)
               else (case parse_add_char r ch of
                       Inl e \<Rightarrow> Inl e
                     | Inr r' \<Rightarrow> Inr (r'\<lparr>state := IN_FIELD\<rparr>)))
      | EAT_CRNL \<Rightarrow>
          (case c of
             None \<Rightarrow> Inr (r\<lparr>state := START_RECORD\<rparr>)
           | Some ch \<Rightarrow> if ch = NL \<or> ch = CR then Inr r else Inl CsvError))"

text \<open>The characters of one line, then its end.\<close>

fun process_line :: "char \<Rightarrow> reader \<Rightarrow> string \<Rightarrow> error + reader" where
  "process_line delimiter r [] = parse_process_char delimiter r None"
| "process_line delimiter r (c # cs) =
     (case parse_process_char delimiter r (Some c) of
        Inl e \<Rightarrow> Inl e
      | Inr r' \<Rightarrow> process_line delimiter r' cs)"

text \<open>
  \<open>next(reader)\<close> after \<open>parse_reset\<close>: lines are consumed until the reader is back in
  \<open>START_RECORD\<close>. The result is the record and the lines not yet read; \<open>None\<close> is
  StopIteration.
\<close>

fun read_record :: "char \<Rightarrow> reader \<Rightarrow> string list \<Rightarrow> error + (string list \<times> string list) option" where
  "read_record delimiter r [] =
     (if field r \<noteq> [] \<or> state r = IN_QUOTED_FIELD then
        Inr (Some (saved (parse_save_field r), []))
      else Inr None)"
| "read_record delimiter r (l # ls) =
     (case process_line delimiter r l of
        Inl e \<Rightarrow> Inl e
      | Inr r' \<Rightarrow>
          if state r' = START_RECORD then Inr (Some (saved r', ls))
          else read_record delimiter r' ls)"

definition csv_next :: "char \<Rightarrow> string list \<Rightarrow> error + (string list \<times> string list) option" where
  "csv_next delimiter ls = read_record delimiter parse_reset ls"

text \<open>
  Every further \<open>next(reader)\<close> until StopIteration or an error: the records read, and the
  error that ended the iteration, if any.
\<close>

fun read_records :: "char \<Rightarrow> reader \<Rightarrow> string list \<Rightarrow> string list list \<times> error option" where
  "read_records delimiter r [] =
     (if field r \<noteq> [] \<or> state r = IN_QUOTED_FIELD then ([saved (parse_save_field r)], None)
      else ([], None))"
| "read_records delimiter r (l # ls) =
     (case process_line delimiter r l of
        Inl e \<Rightarrow> ([], Some e)
      | Inr r' \<Rightarrow>
          if state r' = START_RECORD then
            (case read_records delimiter parse_reset ls of
               (recs, err) \<Rightarrow> (saved r' # recs, err))
          else read_records delimiter r' ls)"

definition csv_rest :: "char \<Rightarrow> string list \<Rightarrow> string list list \<times> error option" where
  "csv_rest delimiter ls = read_records delimiter parse_reset ls"

subsection \<open>\<open>csv.DictReader\<close>\<close>

text \<open>
  A row of the DictReader: a dict from column names to the field, or to \<open>None\<close> (the
  \<open>restval\<close>) where the record is shorter than the header. A later column of the same name
  wins. The entry under the key \<open>None\<close> for surplus fields is left out; the script never
  reads it.
\<close>

type_synonym raw_row = "string \<rightharpoonup> string option"

definition mk_row :: "string list \<Rightarrow> string list \<Rightarrow> raw_row" where
  "mk_row fieldnames rec =
     map_of (rev (zip fieldnames
       (map Some rec @ replicate (length fieldnames - length rec) None)))"

text \<open>The rows after the header: empty records are skipped.\<close>

definition dict_rows :: "string list \<Rightarrow> string list list \<Rightarrow> raw_row list" where
  "dict_rows fieldnames recs = map (mk_row fieldnames) (filter (\<lambda>rec. rec \<noteq> []) recs)"

subsection \<open>\<open>load_code_definitions\<close>\<close>

text \<open>\<open>row[k].strip()\<close>: KeyError without the column, AttributeError on \<open>None\<close>.\<close>

definition row_strip :: "raw_row \<Rightarrow> string \<Rightarrow> error + string" where
  "row_strip row k =
     (case row k of
        None \<Rightarrow> Inl KeyError
      | Some None \<Rightarrow> Inl AttributeError
      | Some (Some v) \<Rightarrow> Inr (strip v))"

text \<open>The body of the loop, lines 48 to 55: the key and the value stored under it.\<close>

definition load_row :: "raw_row \<Rightarrow> error + (string \<times> code_def)" where
  "load_row row =
     (case row_strip row ''code'' of Inl e \<Rightarrow> Inl e | Inr c \<Rightarrow>
      case row_strip row ''code_type'' of Inl e \<Rightarrow> Inl e | Inr ct \<Rightarrow>
      case row_strip row ''official_description'' of Inl e \<Rightarrow> Inl e | Inr od \<Rightarrow>
      case row_strip row ''plain_english'' of Inl e \<Rightarrow> Inl e | Inr pe \<Rightarrow>
      case row_strip row ''status'' of Inl e \<Rightarrow> Inl e | Inr st \<Rightarrow>
      case row_strip row ''effective_date'' of Inl e \<Rightarrow> Inl e | Inr ed \<Rightarrow>
        Inr (c, \<lparr>def_code_type = ct, official_description = od, plain_english = pe,
                 status = st, effective_date = ed\<rparr>))"

text \<open>
  The loop over the rows; \<open>err\<close> is the error of the reader after the last row it could
  read.
\<close>

fun load_rows :: "code_defs \<Rightarrow> raw_row list \<Rightarrow> error option \<Rightarrow> error + code_defs" where
  "load_rows defs [] err = (case err of None \<Rightarrow> Inr defs | Some e \<Rightarrow> Inl e)"
| "load_rows defs (row # rows) err =
     (case load_row row of
        Inl e \<Rightarrow> Inl e
      | Inr (c, d) \<Rightarrow> load_rows (defs(c \<mapsto> d)) rows err)"

text \<open>
  \<open>load_code_definitions(path)\<close>, on the decoded text of the file; \<open>None\<close> is a file that
  cannot be opened or decoded.
\<close>

definition load_code_definitions :: "string option \<Rightarrow> error + code_defs" where
  "load_code_definitions contents =
     (case contents of
        None \<Rightarrow> Inl OSError
      | Some text \<Rightarrow>
          (case csv_next (CHR '','') (file_lines text) of
             Inl e \<Rightarrow> Inl e
           | Inr None \<Rightarrow> Inr Map.empty
           | Inr (Some (fieldnames, rest)) \<Rightarrow>
               (case csv_rest (CHR '','') rest of
                  (recs, err) \<Rightarrow> load_rows Map.empty (dict_rows fieldnames recs) err)))"

text \<open>The columns that the loop reads from every row.\<close>

definition registry_cols :: "string list" where
  "registry_cols = [''code'', ''code_type'', ''official_description'', ''plain_english'',
     ''status'', ''effective_date'']"

subsection \<open>\<open>parse_line_items\<close>\<close>

text \<open>
  Line 94, \<open>re.sub(r"^```[^\n]*\n?", "", s)\<close>: without the multi-line flag \<open>^\<close> matches at
  the start only, so at most the opening fence line is removed.
\<close>

definition fence :: string where
  "fence = [BACKTICK, BACKTICK, BACKTICK]"

definition strip_open_fence :: "string \<Rightarrow> string" where
  "strip_open_fence s =
     (if take 3 s = fence then
        (case dropWhile (\<lambda>c. c \<noteq> NL) (drop 3 s) of
           [] \<Rightarrow> []
         | c # cs \<Rightarrow> cs)
      else s)"

text \<open>
  Line 95, \<open>re.sub(r"\n?```\s*$", "", s)\<close>: the leftmost position from which the rest of
  the text is an optional newline, the fence and white space only; the text is cut there.
\<close>

definition closes :: "string \<Rightarrow> bool" where
  "closes s = (take 3 s = fence \<and> list_all isspace (drop 3 s))"

fun strip_close_fence :: "string \<Rightarrow> string" where
  "strip_close_fence [] = []"
| "strip_close_fence (c # cs) =
     (if closes (c # cs) \<or> (c = NL \<and> closes cs) then [] else c # strip_close_fence cs)"

text \<open>\<open>(raw_row.get(k) or "").strip()\<close>.\<close>

definition get_strip :: "raw_row \<Rightarrow> string \<Rightarrow> string" where
  "get_strip raw_row k = (case raw_row k of Some (Some v) \<Rightarrow> strip v | _ \<Rightarrow> [])"

text \<open>
  The body of the loop over the rows, lines 112 to 170, for row number \<open>i\<close>: the string
  appended to \<open>errors\<close>, or the dict appended to \<open>rows\<close>.
\<close>

definition parse_row :: "nat \<Rightarrow> raw_row \<Rightarrow> string + line_item" where
  "parse_row i raw_row =
     (let line_id_str = get_strip raw_row ''line_id'';
          lid = py_int line_id_str;
          dos_str = get_strip raw_row ''date_of_service'';
          dos = strptime_ymd dos_str;
          code_str = get_strip raw_row ''code'';
          code_type_str = get_strip raw_row ''code_type'';
          units_str = get_strip raw_row ''units'';
          units_val = py_int units_str;
          charge_str = get_strip raw_row ''charge'';
          charge_val = parse_money charge_str;
          bill_label_str = get_strip raw_row ''bill_label'';
          row_errors =
            (if lid = None then [''invalid line_id''] else []) @
            (if dos = None then [''invalid date_of_service '' @ [APOS] @ dos_str @ [APOS]] else []) @
            (if code_str = [] then [''missing code''] else []) @
            (if code_type_str = [] then [''missing code_type''] else []) @
            (if units_val = None then [''invalid units '' @ [APOS] @ units_str @ [APOS]] else []) @
            (if charge_val = None then [''invalid charge '' @ [APOS] @ charge_str @ [APOS]] else [])
      in case (lid, dos, units_val, charge_val) of
           (Some l, Some d, Some u, Some c) \<Rightarrow>
             if row_errors \<noteq> [] then
               Inl (''Row '' @ str_nat i @ '', line_id='' @
                    (if line_id_str \<noteq> [] then line_id_str else ''(row '' @ str_nat i @ '')'') @
                    '': '' @ join ''; '' row_errors)
             else
               Inr \<lparr>line_id = l, date_of_service = d, code = code_str, code_type = code_type_str,
                    units = u, charge = c, bill_label = bill_label_str\<rparr>
         | _ \<Rightarrow>
             Inl (''Row '' @ str_nat i @ '', line_id='' @
                  (if line_id_str \<noteq> [] then line_id_str else ''(row '' @ str_nat i @ '')'') @
                  '': '' @ join ''; '' row_errors))"

text \<open>The loop over the rows, numbered from \<open>i\<close>: the lists \<open>rows\<close> and \<open>errors\<close>.\<close>

fun parse_rows :: "nat \<Rightarrow> raw_row list \<Rightarrow> line_item list \<times> string list" where
  "parse_rows i [] = ([], [])"
| "parse_rows i (raw_row # rest) =
     (case parse_rows (Suc i) rest of
        (rows, errors) \<Rightarrow>
          (case parse_row i raw_row of
             Inl msg \<Rightarrow> (rows, msg # errors)
           | Inr item \<Rightarrow> (item # rows, errors)))"

text \<open>The required columns, in the order of \<open>sorted\<close>.\<close>

definition required_cols :: "string list" where
  "required_cols = [''charge'', ''code'', ''code_type'', ''date_of_service'', ''line_id'', ''units'']"

text \<open>Lines 94 and 95: the text handed to \<open>detect_delimiter\<close>.\<close>

definition strip_fences :: "string \<Rightarrow> string" where
  "strip_fences text = strip_close_fence (strip (strip_open_fence (strip text)))"

text \<open>
  Lines 100 to 104: the header of the DictReader, normalised when it is not empty, and
  the lines after it. \<open>None\<close> is a reader without a first record.
\<close>

definition read_header :: "string \<Rightarrow> error + (string list option \<times> string list)" where
  "read_header text =
     (case csv_next (detect_delimiter text) (stringio_lines (strip text)) of
        Inl e \<Rightarrow> Inl e
      | Inr None \<Rightarrow> Inr (None, [])
      | Inr (Some (names, rest)) \<Rightarrow>
          Inr (Some (if names \<noteq> [] then map (\<lambda>f. lower (strip f)) names else names), rest))"

text \<open>
  The rows of the DictReader after the header, and the error that ended the iteration,
  if any.
\<close>

definition read_rows :: "string \<Rightarrow> string list option \<Rightarrow> string list \<Rightarrow> raw_row list \<times> error option" where
  "read_rows text fieldnames rest =
     (case fieldnames of
        None \<Rightarrow> ([], None)
      | Some names \<Rightarrow>
          (case csv_rest (detect_delimiter text) rest of
             (recs, err) \<Rightarrow> (dict_rows names recs, err)))"

text \<open>
  \<open>parse_line_items(text)\<close>; \<open>None\<close> is the \<open>None\<close> that \<open>extract_section\<close> returns for a
  missing section.
\<close>

definition parse_line_items :: "string option \<Rightarrow> error + (line_item list \<times> string list)" where
  "parse_line_items text_opt =
     (case text_opt of
        None \<Rightarrow> Inr ([], [''No line-item data provided.''])
      | Some text0 \<Rightarrow>
          if text0 = [] \<or> blank (Some text0) then Inr ([], [''No line-item data provided.''])
          else
            let text = strip_fences text0
            in (case read_header text of
                  Inl e \<Rightarrow> Inl e
                | Inr (fieldnames, rest) \<Rightarrow>
                    if fieldnames \<noteq> None \<and> fieldnames \<noteq> Some []
                       \<and> \<not> set required_cols \<subseteq> set (the fieldnames) then
                      Inr ([], [''Missing required columns: '' @
                                join '', '' (filter (\<lambda>c. c \<notin> set (the fieldnames)) required_cols)])
                    else
                      (case read_rows text fieldnames rest of
                         (raw_rows, err) \<Rightarrow>
                           (case err of
                              Some e \<Rightarrow> Inl e
                            | None \<Rightarrow> Inr (parse_rows 2 raw_rows)))))"

text \<open>
  The rows that the DictReader yields for a text that is not blank, that is, the rows the
  loop of \<open>parse_line_items\<close> runs over when the header has the required columns.
\<close>

definition table_rows :: "string \<Rightarrow> error + raw_row list" where
  "table_rows text0 =
     (let text = strip_fences text0
      in case read_header text of
           Inl e \<Rightarrow> Inl e
         | Inr (fieldnames, rest) \<Rightarrow>
             (case read_rows text fieldnames rest of
                (raw_rows, err) \<Rightarrow> (case err of Some e \<Rightarrow> Inl e | None \<Rightarrow> Inr raw_rows)))"

subsection \<open>\<open>evaluate_line_items\<close>: the rules for one item\<close>

definition placeholder :: string where
  "placeholder = ''Definition not provided in Code Pack.''"

definition inactive_note :: string where
  "inactive_note = ''Code is inactive or not effective for the date of service.''"

definition dup_note :: string where
  "dup_note = ''This appears duplicated under the project'' @ [APOS] @
     ''s duplicate rule. Please confirm with billing.''"

definition mismatch_reason :: "string \<Rightarrow> string \<Rightarrow> string" where
  "mismatch_reason bill pack = ''code_type mismatch: bill has '' @ [APOS] @ bill @ [APOS] @
     '', pack has '' @ [APOS] @ pack @ [APOS]"

text \<open>
  Lines 200 to 227: the registry lookup. The result is \<open>official_desc\<close>, \<open>plain_eng\<close>,
  \<open>notes\<close>, \<open>needs_clarification\<close> and \<open>clarification_reasons\<close>; \<open>strptime\<close> on the
  registry's \<open>effective_date\<close> raises ValueError.
\<close>

definition lookup_rules ::
  "code_defs \<Rightarrow> line_item \<Rightarrow> error + (string \<times> string \<times> string list \<times> bool \<times> string list)" where
  "lookup_rules code_defs item =
     (case code_defs (code item) of
        None \<Rightarrow> Inr (placeholder, placeholder, [], True, [''Missing code definition''])
      | Some defn \<Rightarrow>
          if code_type item \<noteq> def_code_type defn then
            Inr (placeholder, placeholder, [], True,
                 [mismatch_reason (code_type item) (def_code_type defn)])
          else
            (case strptime_ymd (effective_date defn) of
               None \<Rightarrow> Inl ValueError
             | Some eff_date \<Rightarrow>
                 if status defn \<noteq> ''Active'' \<or> date_less (date_of_service item) eff_date then
                   Inr (''N/A'', ''N/A'', [inactive_note], True, [inactive_note])
                 else
                   Inr (official_description defn, plain_english defn, [], False, [])))"

text \<open>Lines 229 to 237: the two triggers that do not depend on the registry.\<close>

definition units_reason :: string where
  "units_reason = ''units = 0 AND charge > 0''"

definition mod_reason :: string where
  "mod_reason = ''code_type is MOD with charge > 0''"

definition trigger_reasons :: "line_item \<Rightarrow> string list" where
  "trigger_reasons item =
     (if units item = 0 \<and> float_gt0 (charge item) then [units_reason] else []) @
     (if code_type item = ''MOD'' \<and> float_gt0 (charge item) then [mod_reason] else [])"

text \<open>
  The body of the first loop (lines 187 to 257) for one item: its entry of \<open>section2\<close> and,
  when \<open>needs_clarification\<close> is set, its dict of \<open>clarifications\<close>.
\<close>

definition evaluate_item :: "code_defs \<Rightarrow> line_item \<Rightarrow> error + (entry \<times> clarification option)" where
  "evaluate_item code_defs item =
     (case lookup_rules code_defs item of
        Inl e \<Rightarrow> Inl e
      | Inr (od, pe, nts, needs, rs) \<Rightarrow>
          let rs' = rs @ trigger_reasons item;
              needs' = (needs \<or> trigger_reasons item \<noteq> [])
          in Inr (\<lparr>e_line_id = line_id item, e_dos = strftime_ymd (date_of_service item),
                    e_code = code item, e_code_type = code_type item,
                    official_desc = od, plain_eng = pe,
                    e_units = units item, e_charge = charge item,
                    e_notes = (if nts \<noteq> [] then join ''; '' nts else [])\<rparr>,
                  if needs' then
                    Some \<lparr>c_line_id = line_id item, c_code = code item, reasons = rs'\<rparr>
                  else None))"

text \<open>The first loop over the sorted items; the first exception ends it.\<close>

fun evaluate_items :: "code_defs \<Rightarrow> line_item list \<Rightarrow> error + (entry list \<times> clarification list)" where
  "evaluate_items code_defs [] = Inr ([], [])"
| "evaluate_items code_defs (item # items) =
     (case evaluate_item code_defs item of
        Inl e \<Rightarrow> Inl e
      | Inr (en, c) \<Rightarrow>
          (case evaluate_items code_defs items of
             Inl e \<Rightarrow> Inl e
           | Inr (ens, cs) \<Rightarrow> Inr (en # ens, (case c of None \<Rightarrow> cs | Some r \<Rightarrow> r # cs))))"

subsection \<open>\<open>evaluate_line_items\<close>: duplicate detection\<close>

type_synonym dup_key = "string \<times> string \<times> int \<times> pyfloat"

definition key_of :: "line_item \<Rightarrow> dup_key" where
  "key_of item = (strftime_ymd (date_of_service item), code item, units item, charge item)"

text \<open>Equality of two keys as the dict decides it: component by component, with \<open>==\<close>.\<close>

fun key_eq :: "dup_key \<Rightarrow> dup_key \<Rightarrow> bool" where
  "key_eq (d, c, u, a) (d', c', u', a') = (d = d' \<and> c = c' \<and> u = u' \<and> float_eq a a')"


text \<open>
  \<open>dup_groups_map[key].append(line_id)\<close> on a \<open>defaultdict(list)\<close>, which keeps its keys in
  the order of their first insertion.
\<close>

fun dict_append :: "(dup_key \<times> int list) list \<Rightarrow> dup_key \<Rightarrow> int \<Rightarrow> (dup_key \<times> int list) list" where
  "dict_append [] k v = [(k, [v])]"
| "dict_append ((k', vs) # m) k v =
     (if key_eq k' k then (k', vs @ [v]) # m else (k', vs) # dict_append m k v)"

text \<open>Lines 262 to 270.\<close>

definition dup_groups_map :: "line_item list \<Rightarrow> (dup_key \<times> int list) list" where
  "dup_groups_map rows =
     foldl (\<lambda>m item. dict_append m (key_of item) (line_id item)) [] (sort_key line_id rows)"

text \<open>
  Lines 273 to 289, over the keys already sorted: a group with more than one member gets
  the next group number.
\<close>

fun number_groups :: "int \<Rightarrow> (dup_key \<times> int list) list \<Rightarrow> dup_group list" where
  "number_groups n [] = []"
| "number_groups n ((k, ids) # m) =
     (if length ids > 1 then
        \<lparr>group_number = n, line_ids = ids, g_dos = fst k, g_code = fst (snd k),
         g_units = fst (snd (snd k)), g_charge = snd (snd (snd k))\<rparr> # number_groups (n + 1) m
      else number_groups n m)"

text \<open>
  Lines 259 to 289. The keys are sorted by \<open>min\<close> of their list, which is never empty: a
  key enters the dict together with its first \<open>line_id\<close>.
\<close>

definition detect_duplicates :: "line_item list \<Rightarrow> dup_group list" where
  "detect_duplicates rows =
     number_groups 1 (sort_key (\<lambda>(k, ids). min_list ids) (dup_groups_map rows))"

definition dup_line_ids :: "dup_group list \<Rightarrow> int set" where
  "dup_line_ids gs = set (concat (map line_ids gs))"

text \<open>Lines 292 to 298, for one entry.\<close>

definition add_dup_note :: "int set \<Rightarrow> entry \<Rightarrow> entry" where
  "add_dup_note ids en =
     (if e_line_id en \<in> ids then
        (if e_notes en \<noteq> [] then en\<lparr>e_notes := e_notes en @ ''; '' @ dup_note\<rparr>
         else en\<lparr>e_notes := dup_note\<rparr>)
      else en)"

text \<open>\<open>evaluate_line_items(rows, code_defs)\<close>.\<close>

definition evaluate_line_items ::
  "line_item list \<Rightarrow> code_defs \<Rightarrow> error + (entry list \<times> dup_group list \<times> clarification list)" where
  "evaluate_line_items rows code_defs =
     (case evaluate_items code_defs (sort_key line_id rows) of
        Inl e \<Rightarrow> Inl e
      | Inr (section2, clarifications) \<Rightarrow>
          let dup_groups = detect_duplicates rows
          in Inr (map (add_dup_note (dup_line_ids dup_groups)) section2, dup_groups, clarifications))"


subsection \<open>The calls in \<open>main\<close>\<close>

text \<open>
  Lines 435 and 470 of \<open>main\<close>: the registry that \<open>load_code_definitions\<close> returned is
  handed to \<open>evaluate_line_items\<close>; an exception of the load ends the run before.
\<close>

definition evaluate_loaded ::
  "error + code_defs \<Rightarrow> line_item list \<Rightarrow> error + (entry list \<times> dup_group list \<times> clarification list)" where
  "evaluate_loaded res rows =
     (case res of Inl e \<Rightarrow> Inl e | Inr code_defs \<Rightarrow> evaluate_line_items rows code_defs)"

text \<open>The \<open>effective_date\<close> stored for a code in the registry that was loaded.\<close>

definition loaded_effective_date :: "error + code_defs \<Rightarrow> string \<Rightarrow> error + string option" where
  "loaded_effective_date res c =
     (case res of Inl e \<Rightarrow> Inl e | Inr code_defs \<Rightarrow> Inr (map_option effective_date (code_defs c)))"

text \<open>
  Every item that reaches line 218 finds an \<open>effective_date\<close> that \<open>strptime\<close> accepts.
\<close>

definition effective_dates_parse :: "code_defs \<Rightarrow> line_item list \<Rightarrow> bool" where
  "effective_dates_parse code_defs items =
     list_all (\<lambda>item. case code_defs (code item) of
                  None \<Rightarrow> True
                | Some defn \<Rightarrow> code_type item \<noteq> def_code_type defn
                                \<or> strptime_ymd (effective_date defn) \<noteq> None) items"

text \<open>
  The rows that the DictReader of \<open>load_code_definitions\<close> yields for the text of the
  registry file (lines 46 and 47), with the error that ended the iteration, if any.
\<close>

definition registry_rows :: "string \<Rightarrow> error + (raw_row list \<times> error option)" where
  "registry_rows text =
     (case csv_next (CHR '','') (file_lines text) of
        Inl e \<Rightarrow> Inl e
      | Inr None \<Rightarrow> Inr ([], None)
      | Inr (Some (fieldnames, rest)) \<Rightarrow>
          (case csv_rest (CHR '','') rest of
             (recs, err) \<Rightarrow> Inr (dict_rows fieldnames recs, err)))"

text \<open>
  The record that lines 49 to 55 build from a row in which the six columns are present,
  and the dictionary after the assignment at line 49.
\<close>

definition stored_def :: "raw_row \<Rightarrow> code_def" where
  "stored_def row =
     \<lparr>def_code_type = get_strip row ''code_type'',
      official_description = get_strip row ''official_description'',
      plain_english = get_strip row ''plain_english'',
      status = get_strip row ''status'',
      effective_date = get_strip row ''effective_date''\<rparr>"

definition store_row :: "code_defs \<Rightarrow> raw_row \<Rightarrow> code_defs" where
  "store_row defs row = defs(get_strip row ''code'' \<mapsto> stored_def row)"

subsection \<open>Grouping by first occurrence\<close>


subsection \<open>Concrete inputs\<close>


text \<open>A registry with an active and a retired code, and a bill of two equal items.\<close>

definition defs0 :: code_defs where
  "defs0 = [''99213'' \<mapsto> \<lparr>def_code_type = ''CPT'', official_description = ''Office visit'',
       plain_english = ''Doctor visit'', status = ''Active'', effective_date = ''2023-01-01''\<rparr>,
     ''J1100'' \<mapsto> \<lparr>def_code_type = ''HCPCS'', official_description = ''Injection'',
       plain_english = ''A shot'', status = ''Retired'', effective_date = ''2020-01-01''\<rparr>]"







text \<open>A bill with one row whose charge is negative.\<close>

definition header_text :: string where
  "header_text = ''line_id,date_of_service,code,code_type,units,charge''"

definition refund_text :: string where
  "refund_text = header_text @ [NL] @ ''1,2024-01-01,99213,CPT,1,-5.00''"

definition refund_item :: line_item where
  "refund_item = \<lparr>line_id = 1, date_of_service = \<lparr>year = 2024, month = 1, day = 1\<rparr>,
     code = ''99213'', code_type = ''CPT'', units = 1, charge = Finite (- 5), bill_label = []\<rparr>"

text \<open>
  A registry file whose only row has the effective date \<open>soon\<close>, and a bill with one
  valid row for that code.
\<close>

definition registry_header :: string where
  "registry_header = ''code,code_type,official_description,plain_english,status,effective_date''"

definition bad_registry_text :: string where
  "bad_registry_text = registry_header @ [NL] @ ''99213,CPT,Office visit,Doctor visit,Active,soon'' @ [NL]"

definition visit_text :: string where
  "visit_text = header_text @ [NL] @ ''1,2024-01-01,99213,CPT,1,$100.00''"

definition visit_item :: line_item where
  "visit_item = \<lparr>line_id = 1, date_of_service = \<lparr>year = 2024, month = 1, day = 1\<rparr>,
     code = ''99213'', code_type = ''CPT'', units = 1, charge = Finite 100, bill_label = []\<rparr>"






definition bad_registry_row :: raw_row where
  "bad_registry_row = mk_row [''code'', ''code_type'', ''official_description'', ''plain_english'',
       ''status'', ''effective_date'']
     [''99213'', ''CPT'', ''Office visit'', ''Doctor visit'', ''Active'', ''soon'']"

text \<open>Two bills with the same two rows in opposite orders, and their DictReader rows.\<close>

definition swap_item :: "int \<Rightarrow> line_item" where
  "swap_item n = \<lparr>line_id = n, date_of_service = \<lparr>year = 2024, month = 1, day = 1\<rparr>,
     code = ''99213'', code_type = ''CPT'', units = 1, charge = Finite 100, bill_label = []\<rparr>"

definition swap_text_a :: string where
  "swap_text_a = header_text @ [NL] @ ''2,2024-01-01,99213,CPT,1,$100.00'' @ [NL]
     @ ''1,2024-01-01,99213,CPT,1,$100.00''"

definition swap_text_b :: string where
  "swap_text_b = header_text @ [NL] @ ''1,2024-01-01,99213,CPT,1,$100.00'' @ [NL]
     @ ''2,2024-01-01,99213,CPT,1,$100.00''"

definition header_names :: "string list" where
  "header_names = [''line_id'', ''date_of_service'', ''code'', ''code_type'', ''units'', ''charge'']"

definition swap_record :: "string \<Rightarrow> string list" where
  "swap_record n = [n, ''2024-01-01'', ''99213'', ''CPT'', ''1'', ''$100.00'']"

definition swap_rows_a :: "raw_row list" where
  "swap_rows_a = dict_rows header_names [swap_record ''2'', swap_record ''1'']"

definition swap_rows_b :: "raw_row list" where
  "swap_rows_b = dict_rows header_names [swap_record ''1'', swap_record ''2'']"










text \<open>The DictReader row of the bill \<open>refund_text\<close>.\<close>

definition refund_row :: raw_row where
  "refund_row = mk_row header_names [''1'', ''2024-01-01'', ''99213'', ''CPT'', ''1'', ''-5.00'']"

section \<open>Properties of the rule evaluation\<close>


lemma evaluate_items_Inr:
  "evaluate_items code_defs xs = Inr (ens, cs) \<Longrightarrow>
   list_all2 (\<lambda>x en. \<exists>c. evaluate_item code_defs x = Inr (en, c)) xs ens"
  by (induction xs arbitrary: ens cs) (auto split: sum.splits prod.splits)


lemma evaluate_items_entry:
  "evaluate_items code_defs xs = Inr (ens, cs) \<Longrightarrow> x \<in> set xs \<Longrightarrow>
   \<exists>en c. evaluate_item code_defs x = Inr (en, c) \<and> en \<in> set ens"
  by (induction xs arbitrary: ens cs) (auto split: sum.splits prod.splits option.splits)

lemma add_dup_note_fields [simp]:
  "e_line_id (add_dup_note ids en) = e_line_id en"
  "e_dos (add_dup_note ids en) = e_dos en"
  "e_code (add_dup_note ids en) = e_code en"
  "e_code_type (add_dup_note ids en) = e_code_type en"
  "official_desc (add_dup_note ids en) = official_desc en"
  "plain_eng (add_dup_note ids en) = plain_eng en"
  "e_units (add_dup_note ids en) = e_units en"
  "e_charge (add_dup_note ids en) = e_charge en"
  by (simp_all add: add_dup_note_def)






section \<open>Properties of the duplicate detection\<close>






































lemma strptime_ymd_valid: "strptime_ymd s = Some d \<Longrightarrow> valid_date d"
  by (auto simp: strptime_ymd_def valid_date_def mk_date_def split: list.splits if_splits option.splits)















lemma lookup_rules_Inl:
  "lookup_rules code_defs item = Inl e \<Longrightarrow>
     e = ValueError \<and> (\<exists>defn. code_defs (code item) = Some defn \<and> code_type item = def_code_type defn
        \<and> strptime_ymd (effective_date defn) = None)"
  by (auto simp: lookup_rules_def split: option.splits if_splits)

lemma evaluate_item_Inl:
  "evaluate_item code_defs item = Inl e \<Longrightarrow> lookup_rules code_defs item = Inl e"
  by (auto simp: evaluate_item_def Let_def split: sum.splits prod.splits)

lemma evaluate_item_Inr:
  "evaluate_item code_defs item = Inr (en, c) \<Longrightarrow>
     \<exists>od pe nts needs rs. lookup_rules code_defs item = Inr (od, pe, nts, needs, rs)
       \<and> e_line_id en = line_id item \<and> e_code en = code item \<and> e_code_type en = code_type item
       \<and> e_units en = units item \<and> e_charge en = charge item
       \<and> e_dos en = strftime_ymd (date_of_service item)
       \<and> official_desc en = od \<and> plain_eng en = pe
       \<and> e_notes en = join ''; '' nts
       \<and> c = (if needs \<or> trigger_reasons item \<noteq> [] then
                Some \<lparr>c_line_id = line_id item, c_code = code item, reasons = rs @ trigger_reasons item\<rparr>
              else None)"
proof -
  assume a: "evaluate_item code_defs item = Inr (en, c)"
  then obtain x where x: "lookup_rules code_defs item = Inr x"
    by (cases "lookup_rules code_defs item") (auto simp: evaluate_item_def)
  obtain od pe nts needs rs where t: "x = (od, pe, nts, needs, rs)"
    by (cases x rule: prod_cases5)
  have "join ''; '' nts = (if nts \<noteq> [] then join ''; '' nts else [])" by simp
  then show ?thesis using a x t by (auto simp: evaluate_item_def Let_def)
qed




lemma join_snoc: "join sep (xs @ [x]) = (if xs = [] then x else join sep xs @ sep @ x)"
  by (induction sep xs rule: join.induct) auto





section \<open>Properties of the parser\<close>

text \<open>
  Claim C10. The input made of an opening fence line and a closing fence line only is not
  empty and not blank, both fences are stripped from it, which leaves the empty text, and
  \<open>parse_line_items\<close> returns no items and no errors for it.
\<close>

theorem fence_only_input:
  "fence @ [NL] @ fence \<noteq> [] \<and> \<not> blank (Some (fence @ [NL] @ fence))
   \<and> strip_fences (fence @ [NL] @ fence) = []
   \<and> parse_line_items (Some (fence @ [NL] @ fence)) = Inr ([], [])"
  by code_simp

text \<open>
  Claim C7. When the input is not blank and the header that the DictReader reads from it,
  normalised, lacks a required column, \<open>parse_line_items\<close> returns no items and the single
  error "Missing required columns: ..." that lists the missing columns in sorted order;
  no row is looked at. (An input without any header is the subject of claim C10.)
\<close>

theorem missing_columns_structural_error:
  assumes "text0 \<noteq> []" and "\<not> blank (Some text0)"
    and "read_header (strip_fences text0) = Inr (Some names, rest)"
    and "names \<noteq> []" and "\<not> set required_cols \<subseteq> set names"
  shows "parse_line_items (Some text0) =
           Inr ([], [''Missing required columns: '' @
                     join '', '' (filter (\<lambda>c. c \<notin> set names) required_cols)])"
  using assms by (simp add: parse_line_items_def Let_def)

theorem missing_columns_structural_error_witness:
  "''line_id,code'' @ [NL] @ ''1,2'' \<noteq> [] \<and> \<not> blank (Some (''line_id,code'' @ [NL] @ ''1,2''))
   \<and> read_header (strip_fences (''line_id,code'' @ [NL] @ ''1,2'')) = Inr (Some [''line_id'', ''code''], [''1,2''])
   \<and> [''line_id'', ''code''] \<noteq> [] \<and> \<not> set required_cols \<subseteq> set [''line_id'', ''code'']
   \<and> parse_line_items (Some (''line_id,code'' @ [NL] @ ''1,2'')) =
        Inr ([], [''Missing required columns: charge, code_type, date_of_service, units''])"
proof -
  have h1: "''line_id,code'' @ [NL] @ ''1,2'' \<noteq> []" by simp
  have h2: "\<not> blank (Some (''line_id,code'' @ [NL] @ ''1,2''))" by code_simp
  have h3: "read_header (strip_fences (''line_id,code'' @ [NL] @ ''1,2''))
              = Inr (Some [''line_id'', ''code''], [''1,2''])" by code_simp
  have h4: "[''line_id'', ''code''] \<noteq> []" by simp
  have h5: "\<not> set required_cols \<subseteq> set [''line_id'', ''code'']" by (simp add: required_cols_def)
  have m: "join '', '' (filter (\<lambda>c. c \<notin> set [''line_id'', ''code'']) required_cols)
             = ''charge, code_type, date_of_service, units''" by code_simp
  from missing_columns_structural_error [OF h1 h2 h3 h4 h5] m
  have "parse_line_items (Some (''line_id,code'' @ [NL] @ ''1,2'')) =
        Inr ([], [''Missing required columns: charge, code_type, date_of_service, units''])"
    by simp
  then show ?thesis using h1 h2 h3 h4 h5 by blast
qed

lemma digit_val_nonneg: "is_digit c \<Longrightarrow> 0 \<le> digit_val c"
proof -
  assume "is_digit c"
  then have "48 \<le> (of_char c :: int)" by (simp add: is_digit_def Let_def)
  then show ?thesis by (simp add: digit_val_def)
qed

lemma foldl_digits_nonneg:
  "0 \<le> n \<Longrightarrow> list_all is_digit ds \<Longrightarrow> 0 \<le> foldl (\<lambda>n c. 10 * n + digit_val c) n ds"
proof (induction ds arbitrary: n)
  case Nil
  then show ?case by simp
next
  case (Cons c ds)
  have "0 \<le> 10 * n + digit_val c" using Cons.prems digit_val_nonneg [of c] by simp
  then show ?case using Cons by simp
qed

lemma digits_val_nonneg: "list_all is_digit ds \<Longrightarrow> 0 \<le> digits_val ds"
  by (simp add: digits_val_def foldl_digits_nonneg)

lemma list_all_takeWhile: "list_all P (takeWhile P xs)"
  by (induction xs) auto

lemma scale_nonneg:
  "0 \<le> d \<Longrightarrow> 0 \<le> (of_int d :: rat) * (if 0 \<le> e then 10 ^ nat e else 1 / 10 ^ nat (- e))"
  by simp

lemma decimal_literal_nonneg: "decimal_literal u = Some q \<Longrightarrow> 0 \<le> q"
proof -
  assume a: "decimal_literal u = Some q"
  define ip where "ip = takeWhile is_digit u"
  define fp where "fp = (case dropWhile is_digit u of [] \<Rightarrow> []
     | c # cs \<Rightarrow> if c = CHR ''.'' then takeWhile is_digit cs else [])"
  define r' where "r' = (case dropWhile is_digit u of [] \<Rightarrow> []
     | c # cs \<Rightarrow> if c = CHR ''.'' then dropWhile is_digit cs else dropWhile is_digit u)"
  have "list_all is_digit ip" by (simp add: ip_def list_all_takeWhile)
  moreover have "list_all is_digit fp"
    by (auto simp: fp_def list_all_takeWhile split: list.splits)
  ultimately have d: "0 \<le> digits_val (ip @ fp)" by (simp add: digits_val_nonneg)
  have eq: "decimal_literal u = (if ip @ fp = [] then None
         else (case exponent_part r' of
                 None \<Rightarrow> None
               | Some ex \<Rightarrow> Some (of_int (digits_val (ip @ fp)) *
                            (if 0 \<le> ex - int (length fp) then 10 ^ nat (ex - int (length fp))
                             else 1 / 10 ^ nat (- (ex - int (length fp)))))))"
    unfolding decimal_literal_def Let_def ip_def fp_def r'_def ..
  have ne: "ip @ fp \<noteq> []" using a unfolding eq by (auto split: if_splits)
  obtain ex where ex: "exponent_part r' = Some ex"
    using a ne unfolding eq by (cases "exponent_part r'") auto
  have "Some (of_int (digits_val (ip @ fp)) *
           (if 0 \<le> ex - int (length fp) then 10 ^ nat (ex - int (length fp))
            else 1 / 10 ^ nat (- (ex - int (length fp))))) = Some q"
    using a ne ex unfolding eq by (simp only: if_False option.case)
  then have "q = of_int (digits_val (ip @ fp)) *
           (if 0 \<le> ex - int (length fp) then 10 ^ nat (ex - int (length fp))
            else 1 / 10 ^ nat (- (ex - int (length fp))))"
    by (simp only: option.inject)
  then show ?thesis using scale_nonneg [OF d, of "ex - int (length fp)"] by (simp only:)
qed

lemma pow2_pos: "0 < pow2 t"
  by (simp add: pow2_def)

lemma round_half_even_nonneg: "0 \<le> x \<Longrightarrow> 0 \<le> round_half_even x"
proof -
  assume "0 \<le> x"
  then have "0 \<le> \<lfloor>x\<rfloor>" by simp
  then show ?thesis by (simp add: round_half_even_def Let_def)
qed

lemma round_double_nonneg: "0 \<le> q \<Longrightarrow> float_ge0 (round_double q)"
proof -
  assume q: "0 \<le> q"
  have "0 \<le> of_int (round_half_even (\<bar>q\<bar> / pow2 t)) * pow2 t" for t
  proof -
    have "0 \<le> \<bar>q\<bar> / pow2 t" using pow2_pos [of t] by simp
    then have "0 \<le> round_half_even (\<bar>q\<bar> / pow2 t)" by (rule round_half_even_nonneg)
    then show ?thesis using pow2_pos [of t] by simp
  qed
  then show ?thesis using q by (simp add: round_double_def Let_def)
qed

lemma float_literal_sign:
  assumes a: "float_literal t = Some f"
  shows "float_ge0 f \<or> f = NaN \<or> (\<exists>cs. t = CHR ''-'' # cs)"
proof (cases t)
  case Nil
  then show ?thesis using a by (simp add: float_literal_def)
next
  case (Cons c cs)
  show ?thesis
  proof (cases "c = CHR ''-''")
    case True
    then show ?thesis using Cons by simp
  next
    case False
    then have "f = PosInf \<or> f = NaN \<or> (\<exists>q. 0 \<le> q \<and> f = round_double q)"
      using a Cons decimal_literal_nonneg
      by (auto simp: float_literal_def Let_def split: if_splits option.splits)
    then show ?thesis using round_double_nonneg by auto
  qed
qed

lemma underscores_ok_first:
  "underscores_ok None t \<Longrightarrow> remove_char (CHR ''_'') t = c # cs \<Longrightarrow> \<exists>cs'. t = c # cs'"
  by (cases t) (auto simp: remove_char_def split: if_splits)

lemma py_float_sign:
  "py_float s = Some f \<Longrightarrow> float_ge0 f \<or> f = NaN \<or> (\<exists>cs. number_strip s = CHR ''-'' # cs)"
proof -
  assume a: "py_float s = Some f"
  show ?thesis
  proof (cases "CHR ''_'' \<in> set (number_strip s)")
    case True
    then have ok: "underscores_ok None (number_strip s)"
      and l: "float_literal (remove_char (CHR ''_'') (number_strip s)) = Some f"
      using a by (auto simp: py_float_def Let_def split: if_splits)
    from float_literal_sign [OF l] underscores_ok_first [OF ok] show ?thesis by blast
  next
    case False
    then have "float_literal (number_strip s) = Some f" using a by (simp add: py_float_def Let_def)
    from float_literal_sign [OF this] show ?thesis .
  qed
qed

lemma parse_row_Inr_iff:
  "parse_row i raw_row = Inr item \<longleftrightarrow>
     (\<exists>l d u c. py_int (get_strip raw_row ''line_id'') = Some l
        \<and> strptime_ymd (get_strip raw_row ''date_of_service'') = Some d
        \<and> get_strip raw_row ''code'' \<noteq> [] \<and> get_strip raw_row ''code_type'' \<noteq> []
        \<and> py_int (get_strip raw_row ''units'') = Some u
        \<and> parse_money (get_strip raw_row ''charge'') = Some c
        \<and> item = \<lparr>line_id = l, date_of_service = d, code = get_strip raw_row ''code'',
                    code_type = get_strip raw_row ''code_type'', units = u, charge = c,
                    bill_label = get_strip raw_row ''bill_label''\<rparr>)"
proof (cases "py_int (get_strip raw_row ''line_id'')")
  case None
  then show ?thesis by (simp add: parse_row_def Let_def)
next
  case l: (Some l)
  show ?thesis
  proof (cases "strptime_ymd (get_strip raw_row ''date_of_service'')")
    case None
    then show ?thesis using l by (simp add: parse_row_def Let_def)
  next
    case d: (Some d)
    show ?thesis
    proof (cases "py_int (get_strip raw_row ''units'')")
      case None
      then show ?thesis using l d by (simp add: parse_row_def Let_def)
    next
      case u: (Some u)
      show ?thesis
      proof (cases "parse_money (get_strip raw_row ''charge'')")
        case None
        then show ?thesis using l d u by (simp add: parse_row_def Let_def)
      next
        case c: (Some c)
        show ?thesis using l d u c by (auto simp: parse_row_def Let_def)
      qed
    qed
  qed
qed

lemma parse_row_Inr:
  assumes "parse_row i raw_row = Inr item"
  shows "py_int (get_strip raw_row ''line_id'') = Some (line_id item)"
    and "strptime_ymd (get_strip raw_row ''date_of_service'') = Some (date_of_service item)"
    and "code item = get_strip raw_row ''code''" and "code item \<noteq> []"
    and "code_type item = get_strip raw_row ''code_type''" and "code_type item \<noteq> []"
    and "py_int (get_strip raw_row ''units'') = Some (units item)"
    and "parse_money (get_strip raw_row ''charge'') = Some (charge item)"
    and "bill_label item = get_strip raw_row ''bill_label''"
  using assms by (auto simp: parse_row_Inr_iff)

lemma parse_row_index:
  "parse_row i raw_row = Inr item \<Longrightarrow> parse_row j raw_row = Inr item"
  by (simp only: parse_row_Inr_iff)

lemma parse_line_items_table_rows:
  assumes "parse_line_items (Some text) = Inr (items, errs)" and "items \<noteq> []"
  shows "\<exists>raws. table_rows text = Inr raws \<and> parse_rows 2 raws = (items, errs)"
proof -
  have nb: "text \<noteq> [] \<and> \<not> blank (Some text)"
    using assms by (auto simp: parse_line_items_def split: if_splits)
  obtain fieldnames rest where h: "read_header (strip_fences text) = Inr (fieldnames, rest)"
    using assms(1) nb by (cases "read_header (strip_fences text)") (auto simp: parse_line_items_def Let_def)
  obtain raw_rows err where r: "read_rows (strip_fences text) fieldnames rest = (raw_rows, err)"
    by (cases "read_rows (strip_fences text) fieldnames rest")
  have "err = None \<and> parse_rows 2 raw_rows = (items, errs)"
    using assms nb h r by (auto simp: parse_line_items_def Let_def split: if_splits option.splits)
  then show ?thesis using h r by (simp add: table_rows_def Let_def)
qed

lemma parse_rows_accepted:
  "parse_rows i raws = (items, errs) \<Longrightarrow>
     list_all2 (\<lambda>raw item. parse_row 0 raw = Inr item) (filter (\<lambda>raw. \<not> isl (parse_row 0 raw)) raws) items"
proof (induction raws arbitrary: i items errs)
  case Nil
  then show ?case by simp
next
  case (Cons raw raws)
  obtain rows errors where rec: "parse_rows (Suc i) raws = (rows, errors)"
    by (cases "parse_rows (Suc i) raws")
  note ih = Cons.IH [OF rec]
  show ?case
  proof (cases "parse_row i raw")
    case (Inl msg)
    have "isl (parse_row 0 raw)"
    proof (cases "parse_row 0 raw")
      case (Inr it)
      from parse_row_index [OF this, of i] Inl show ?thesis by simp
    qed simp
    moreover have "items = rows" using Cons.prems rec Inl by simp
    ultimately show ?thesis using ih by simp
  next
    case (Inr item)
    then have it: "items = item # rows" using Cons.prems rec by auto
    have "parse_row 0 raw = Inr item" using Inr by (rule parse_row_index)
    then show ?thesis using ih it by simp
  qed
qed

lemma parse_row_charge:
  assumes "parse_row i raw = Inr item"
  shows "parse_money (get_strip raw ''charge'') = Some (charge item)
         \<and> (float_ge0 (charge item) \<or> charge item = NaN
              \<or> (\<exists>cs. amount_text (get_strip raw ''charge'') = CHR ''-'' # cs))"
proof -
  have m: "parse_money (get_strip raw ''charge'') = Some (charge item)"
    using parse_row_Inr(8) [OF assms] .
  then have "py_float (remove_char (CHR '','') (remove_char (CHR ''$'') (strip (get_strip raw ''charge''))))
               = Some (charge item)" by (simp add: parse_money_def)
  from py_float_sign [OF this] have "float_ge0 (charge item) \<or> charge item = NaN
                \<or> (\<exists>cs. amount_text (get_strip raw ''charge'') = CHR ''-'' # cs)"
    by (simp add: amount_text_def)
  then show ?thesis using m by blast
qed

lemma table_refund: "table_rows refund_text = Inr [refund_row]"
proof -
  have h: "read_header (strip_fences refund_text)
           = Inr (Some header_names, [''1,2024-01-01,99213,CPT,1,-5.00''])" by code_simp
  have d: "detect_delimiter (strip_fences refund_text) = CHR '',''" by code_simp
  have r: "csv_rest (CHR '','') [''1,2024-01-01,99213,CPT,1,-5.00'']
           = ([[''1'', ''2024-01-01'', ''99213'', ''CPT'', ''1'', ''-5.00'']], None)" by code_simp
  show ?thesis
    unfolding table_rows_def Let_def h read_rows_def d
    by (simp only: sum.case prod.case option.case r dict_rows_def refund_row_def list.map filter.simps)
       simp
qed

lemma list_all2_right:
  "list_all2 P xs ys \<Longrightarrow> y \<in> set ys \<Longrightarrow> \<exists>x\<in>set xs. P x y"
  by (induction rule: list_all2_induct) auto

lemma parse_line_items_valid_dates:
  assumes "parse_line_items (Some text) = Inr (items, errs)"
  shows "\<forall>x\<in>set items. valid_date (date_of_service x)"
proof
  fix x assume x: "x \<in> set items"
  then have "items \<noteq> []" by auto
  from parse_line_items_table_rows [OF assms this] obtain raws where
    "parse_rows 2 raws = (items, errs)" by blast
  from list_all2_right [OF parse_rows_accepted [OF this] x] obtain raw where
    "parse_row 0 raw = Inr x" by blast
  from parse_row_Inr(2) [OF this] show "valid_date (date_of_service x)"
    by (rule strptime_ymd_valid)
qed


text \<open>
  Claim C4 fails: a row whose charge is \<open>-5.00\<close> is accepted, with the charge \<open>-5\<close>.
\<close>

theorem negative_charge_accepted:
  "parse_line_items (Some refund_text) = Inr ([refund_item], []) \<and> \<not> float_ge0 (charge refund_item)"
  by code_simp

text \<open>
  Claim C4, amended. When \<open>parse_line_items\<close> returns items, they are, in order, the items of
  the rows of the input table that pass the six validations, and the charge of each item
  is the value that \<open>parse_money\<close> computes from the charge field of its own row. The sign
  is not checked: the charge is non-negative unless it is NaN or the amount text of that
  row begins with a minus sign.
\<close>

theorem charge_is_parsed_from_row:
  assumes "parse_line_items (Some text) = Inr (items, errs)" and "items \<noteq> []"
  shows "\<exists>raws. table_rows text = Inr raws
           \<and> list_all2 (\<lambda>raw item. parse_row 0 raw = Inr item
                  \<and> parse_money (get_strip raw ''charge'') = Some (charge item)
                  \<and> (float_ge0 (charge item) \<or> charge item = NaN
                       \<or> (\<exists>cs. amount_text (get_strip raw ''charge'') = CHR ''-'' # cs)))
               (filter (\<lambda>raw. \<not> isl (parse_row 0 raw)) raws) items"
proof -
  from parse_line_items_table_rows [OF assms] obtain raws where
    t: "table_rows text = Inr raws" and p: "parse_rows 2 raws = (items, errs)" by blast
  have "list_all2 (\<lambda>raw item. parse_row 0 raw = Inr item
                  \<and> parse_money (get_strip raw ''charge'') = Some (charge item)
                  \<and> (float_ge0 (charge item) \<or> charge item = NaN
                       \<or> (\<exists>cs. amount_text (get_strip raw ''charge'') = CHR ''-'' # cs)))
               (filter (\<lambda>raw. \<not> isl (parse_row 0 raw)) raws) items"
    using parse_rows_accepted [OF p]
    by (rule list_all2_mono) (use parse_row_charge in blast)
  then show ?thesis using t by blast
qed

theorem charge_is_parsed_from_row_witness:
  "parse_line_items (Some refund_text) = Inr ([refund_item], []) \<and> [refund_item] \<noteq> []
   \<and> table_rows refund_text = Inr [refund_row]
   \<and> parse_row 0 refund_row = Inr refund_item
   \<and> parse_money (get_strip refund_row ''charge'') = Some (charge refund_item)
   \<and> amount_text (get_strip refund_row ''charge'') = ''-5.00''"
proof -
  have h1: "parse_line_items (Some refund_text) = Inr ([refund_item], [])" by code_simp
  have h2: "[refund_item] \<noteq> []" by simp
  have p: "parse_row 0 refund_row = Inr refund_item" by code_simp
  have a: "amount_text (get_strip refund_row ''charge'') = ''-5.00''" by code_simp
  from charge_is_parsed_from_row [OF h1 h2] table_refund p
  have "parse_money (get_strip refund_row ''charge'') = Some (charge refund_item)" by simp
  then show ?thesis using h1 h2 table_refund p a by blast
qed

section \<open>Properties of the registry and of the whole run\<close>

lemma row_strip_present: "row k = Some (Some v) \<Longrightarrow> row_strip row k = Inr (strip v)"
  by (simp add: row_strip_def)

lemma load_code_definitions_rows:
  "load_code_definitions (Some text) =
     (case registry_rows text of
        Inl e \<Rightarrow> Inl e
      | Inr (rows, err) \<Rightarrow> load_rows Map.empty rows err)"
  by (simp add: load_code_definitions_def registry_rows_def
           split: sum.splits option.splits prod.splits)

lemma load_row_stored:
  assumes "\<forall>k\<in>set registry_cols. \<exists>v. row k = Some (Some v)"
  shows "load_row row = Inr (get_strip row ''code'', stored_def row)"
proof -
  from assms obtain v1 v2 v3 v4 v5 v6 where
    "row ''code'' = Some (Some v1)" "row ''code_type'' = Some (Some v2)"
    "row ''official_description'' = Some (Some v3)" "row ''plain_english'' = Some (Some v4)"
    "row ''status'' = Some (Some v5)" "row ''effective_date'' = Some (Some v6)"
    unfolding registry_cols_def by (metis list.set_intros(1,2))
  then show ?thesis
    by (simp add: load_row_def row_strip_present stored_def_def get_strip_def)
qed

lemma load_rows_stored:
  "\<forall>row\<in>set rows. \<forall>k\<in>set registry_cols. \<exists>v. row k = Some (Some v) \<Longrightarrow>
   load_rows acc rows None = Inr (foldl store_row acc rows)"
proof (induction rows arbitrary: acc)
  case Nil
  then show ?case by simp
next
  case (Cons row rows)
  have l: "load_row row = Inr (get_strip row ''code'', stored_def row)"
    using Cons.prems by (intro load_row_stored) simp
  have "\<forall>row\<in>set rows. \<forall>k\<in>set registry_cols. \<exists>v. row k = Some (Some v)"
    using Cons.prems by simp
  from Cons.IH [OF this] show ?case using l by (simp add: store_row_def)
qed

lemma foldl_store_other:
  "\<forall>r\<in>set rs. get_strip r ''code'' \<noteq> c \<Longrightarrow> foldl store_row m rs c = m c"
  by (induction rs arbitrary: m) (auto simp: store_row_def)

lemma foldl_store_last:
  assumes "\<forall>r\<in>set rows2. get_strip r ''code'' \<noteq> get_strip row ''code''"
  shows "foldl store_row m (rows1 @ row # rows2) (get_strip row ''code'') = Some (stored_def row)"
  using foldl_store_other [OF assms] by (simp add: store_row_def)

lemma foldl_store_mem:
  "foldl store_row m rs c = Some d \<Longrightarrow>
     m c = Some d \<or> (\<exists>r\<in>set rs. c = get_strip r ''code'' \<and> d = stored_def r)"
proof (induction rs arbitrary: m)
  case Nil
  then show ?case by simp
next
  case (Cons r rs)
  from Cons.IH [of "store_row m r"] Cons.prems
  have "store_row m r c = Some d \<or> (\<exists>r\<in>set rs. c = get_strip r ''code'' \<and> d = stored_def r)"
    by simp
  then show ?case
  proof
    assume "store_row m r c = Some d"
    then show ?thesis by (cases "c = get_strip r ''code''") (auto simp: store_row_def)
  next
    assume "\<exists>r\<in>set rs. c = get_strip r ''code'' \<and> d = stored_def r"
    then show ?thesis by auto
  qed
qed

lemma evaluate_item_ValueError:
  "code_defs (code item) = Some defn \<Longrightarrow> code_type item = def_code_type defn \<Longrightarrow>
   strptime_ymd (effective_date defn) = None \<Longrightarrow> evaluate_item code_defs item = Inl ValueError"
  by (simp add: evaluate_item_def lookup_rules_def)

lemma evaluate_items_Inl_ValueError:
  "evaluate_items code_defs xs = Inl e \<Longrightarrow> e = ValueError"
proof (induction xs)
  case Nil
  then show ?case by simp
next
  case (Cons x xs)
  show ?case
  proof (cases "evaluate_item code_defs x")
    case (Inl e')
    then have "e = e'" using Cons.prems by simp
    then show ?thesis using lookup_rules_Inl [OF evaluate_item_Inl [OF Inl]] by simp
  next
    case (Inr p)
    then have "evaluate_items code_defs xs = Inl e"
      using Cons.prems by (auto split: sum.splits prod.splits)
    then show ?thesis by (rule Cons.IH)
  qed
qed

lemma evaluate_items_raises:
  "x \<in> set xs \<Longrightarrow> evaluate_item code_defs x = Inl e \<Longrightarrow>
   evaluate_items code_defs xs = Inl ValueError"
proof -
  assume x: "x \<in> set xs" and e: "evaluate_item code_defs x = Inl e"
  show ?thesis
  proof (cases "evaluate_items code_defs xs")
    case (Inl e')
    then show ?thesis using evaluate_items_Inl_ValueError by blast
  next
    case (Inr p)
    obtain ens cs where "p = (ens, cs)" by (cases p)
    with Inr evaluate_items_entry [OF _ x] e show ?thesis by fastforce
  qed
qed

lemma evaluate_line_items_raises:
  "item \<in> set rows \<Longrightarrow> evaluate_item code_defs item = Inl e \<Longrightarrow>
   evaluate_line_items rows code_defs = Inl ValueError"
proof -
  assume "item \<in> set rows" and e: "evaluate_item code_defs item = Inl e"
  then have "item \<in> set (sort_key line_id rows)" by simp
  from evaluate_items_raises [OF this e] show ?thesis
    by (simp add: evaluate_line_items_def)
qed

text \<open>
  Claim C3 fails: a registry file with the effective date \<open>soon\<close> is loaded without error,
  and the text \<open>soon\<close>, which \<open>strptime\<close> rejects, is stored.
\<close>

theorem malformed_registry_date_loads:
  "loaded_effective_date (load_code_definitions (Some bad_registry_text)) ''99213'' = Inr (Some ''soon'')
   \<and> strptime_ymd ''soon'' = None"
  by code_simp

text \<open>
  Claim C3, amended. \<open>load_code_definitions\<close> does not look at \<open>effective_date\<close>: when the
  reader ends without error and every row has the six columns, the load succeeds, whatever
  the dates are, and the last row of each code is stored under that code with the stripped
  text of its \<open>effective_date\<close> column. A stored date that \<open>strptime\<close> rejects makes the
  evaluation raise \<open>ValueError\<close> for every item with that code and the same \<open>code_type\<close>,
  and the evaluation of an item raises in no other case.
\<close>

theorem effective_date_stored_unchecked:
  assumes "registry_rows text = Inr (rows, None)"
    and "\<forall>row\<in>set rows. \<forall>k\<in>set registry_cols. \<exists>v. row k = Some (Some v)"
  shows "\<exists>code_defs. load_code_definitions (Some text) = Inr code_defs
     \<and> code_defs = foldl store_row Map.empty rows
     \<and> (\<forall>rows1 row rows2.
           rows = rows1 @ row # rows2
           \<and> (\<forall>r\<in>set rows2. get_strip r ''code'' \<noteq> get_strip row ''code'') \<longrightarrow>
             code_defs (get_strip row ''code'') = Some (stored_def row)
           \<and> map_option effective_date (code_defs (get_strip row ''code''))
               = Some (get_strip row ''effective_date'')
           \<and> (\<forall>item. code item = get_strip row ''code''
                   \<and> code_type item = get_strip row ''code_type''
                   \<and> strptime_ymd (get_strip row ''effective_date'') = None \<longrightarrow>
                 evaluate_item code_defs item = Inl ValueError
                 \<and> (\<forall>items. item \<in> set items \<longrightarrow>
                       evaluate_line_items items code_defs = Inl ValueError)))
     \<and> (\<forall>item e. evaluate_item code_defs item = Inl e \<longrightarrow>
           e = ValueError
           \<and> (\<exists>row\<in>set rows. code item = get_strip row ''code''
                 \<and> code_type item = get_strip row ''code_type''
                 \<and> strptime_ymd (get_strip row ''effective_date'') = None))"
proof -
  let ?defs = "foldl store_row Map.empty rows"
  have l: "load_code_definitions (Some text) = Inr ?defs"
    using assms(1) load_rows_stored [OF assms(2), of Map.empty]
    by (simp add: load_code_definitions_rows)
  have a: "?defs (get_strip row ''code'') = Some (stored_def row)
           \<and> map_option effective_date (?defs (get_strip row ''code''))
               = Some (get_strip row ''effective_date'')
           \<and> (\<forall>item. code item = get_strip row ''code''
                   \<and> code_type item = get_strip row ''code_type''
                   \<and> strptime_ymd (get_strip row ''effective_date'') = None \<longrightarrow>
                 evaluate_item ?defs item = Inl ValueError
                 \<and> (\<forall>items. item \<in> set items \<longrightarrow>
                       evaluate_line_items items ?defs = Inl ValueError))"
    if r: "rows = rows1 @ row # rows2"
      and n: "\<forall>r\<in>set rows2. get_strip r ''code'' \<noteq> get_strip row ''code''"
    for rows1 row rows2
  proof -
    have s: "?defs (get_strip row ''code'') = Some (stored_def row)"
      unfolding r using n by (rule foldl_store_last)
    have d: "map_option effective_date (?defs (get_strip row ''code''))
               = Some (get_strip row ''effective_date'')"
      using s by (simp add: stored_def_def)
    have "evaluate_item ?defs item = Inl ValueError
                 \<and> (\<forall>items. item \<in> set items \<longrightarrow>
                       evaluate_line_items items ?defs = Inl ValueError)"
      if "code item = get_strip row ''code''" "code_type item = get_strip row ''code_type''"
         "strptime_ymd (get_strip row ''effective_date'') = None" for item
    proof -
      have "evaluate_item ?defs item = Inl ValueError"
        using s that by (intro evaluate_item_ValueError [where defn = "stored_def row"])
                        (simp_all add: stored_def_def)
      then show ?thesis using evaluate_line_items_raises by blast
    qed
    then show ?thesis using s d by blast
  qed
  have b: "e = ValueError
           \<and> (\<exists>row\<in>set rows. code item = get_strip row ''code''
                 \<and> code_type item = get_strip row ''code_type''
                 \<and> strptime_ymd (get_strip row ''effective_date'') = None)"
    if "evaluate_item ?defs item = Inl e" for item e
  proof -
    from lookup_rules_Inl [OF evaluate_item_Inl [OF that]] obtain defn where
      e: "e = ValueError" and d: "?defs (code item) = Some defn"
      and t: "code_type item = def_code_type defn" and p: "strptime_ymd (effective_date defn) = None"
      by blast
    from foldl_store_mem [OF d] obtain r where
      "r \<in> set rows" "code item = get_strip r ''code''" "defn = stored_def r" by auto
    then show ?thesis using e t p by (auto simp: stored_def_def)
  qed
  show ?thesis using l a b by blast
qed

lemma registry_rows_bad: "registry_rows bad_registry_text = Inr ([bad_registry_row], None)"
proof -
  have h: "csv_next (CHR '','') (file_lines bad_registry_text)
           = Inr (Some ([''code'', ''code_type'', ''official_description'', ''plain_english'',
                         ''status'', ''effective_date''],
                        [''99213,CPT,Office visit,Doctor visit,Active,soon'' @ [NL]]))" by code_simp
  have r: "csv_rest (CHR '','') [''99213,CPT,Office visit,Doctor visit,Active,soon'' @ [NL]]
           = ([[''99213'', ''CPT'', ''Office visit'', ''Doctor visit'', ''Active'', ''soon'']], None)"
    by code_simp
  show ?thesis
    unfolding registry_rows_def h
    by (simp only: sum.case prod.case option.case r dict_rows_def bad_registry_row_def)
       simp
qed

theorem effective_date_stored_unchecked_witness:
  "registry_rows bad_registry_text = Inr ([bad_registry_row], None)
   \<and> get_strip bad_registry_row ''code'' = ''99213''
   \<and> get_strip bad_registry_row ''effective_date'' = ''soon''
   \<and> strptime_ymd ''soon'' = None
   \<and> (\<exists>code_defs. load_code_definitions (Some bad_registry_text) = Inr code_defs
         \<and> map_option effective_date (code_defs ''99213'') = Some ''soon''
         \<and> evaluate_item code_defs visit_item = Inl ValueError
         \<and> evaluate_line_items [visit_item] code_defs = Inl ValueError)"
proof -
  have h: "\<forall>row\<in>set [bad_registry_row]. \<forall>k\<in>set registry_cols. \<exists>v. row k = Some (Some v)"
    by (simp add: bad_registry_row_def registry_cols_def mk_row_def)
  have g: "get_strip bad_registry_row ''code'' = ''99213''"
    "get_strip bad_registry_row ''code_type'' = ''CPT''"
    "get_strip bad_registry_row ''effective_date'' = ''soon''"
    "strptime_ymd ''soon'' = None"
    by code_simp+
  have f: "[bad_registry_row] = [] @ bad_registry_row # []" by simp
  from effective_date_stored_unchecked [OF registry_rows_bad h] obtain code_defs where
    l: "load_code_definitions (Some bad_registry_text) = Inr code_defs"
    and a: "\<forall>rows1 row rows2.
           [bad_registry_row] = rows1 @ row # rows2
           \<and> (\<forall>r\<in>set rows2. get_strip r ''code'' \<noteq> get_strip row ''code'') \<longrightarrow>
             code_defs (get_strip row ''code'') = Some (stored_def row)
           \<and> map_option effective_date (code_defs (get_strip row ''code''))
               = Some (get_strip row ''effective_date'')
           \<and> (\<forall>item. code item = get_strip row ''code''
                   \<and> code_type item = get_strip row ''code_type''
                   \<and> strptime_ymd (get_strip row ''effective_date'') = None \<longrightarrow>
                 evaluate_item code_defs item = Inl ValueError
                 \<and> (\<forall>items. item \<in> set items \<longrightarrow>
                       evaluate_line_items items code_defs = Inl ValueError))"
    by (elim exE conjE) (rule that, assumption, assumption)
  from a [rule_format, of "[]" bad_registry_row "[]"] f
  have d: "map_option effective_date (code_defs ''99213'') = Some ''soon''"
    and e: "\<forall>item. code item = ''99213'' \<and> code_type item = ''CPT'' \<longrightarrow>
                 evaluate_item code_defs item = Inl ValueError
                 \<and> (\<forall>items. item \<in> set items \<longrightarrow>
                       evaluate_line_items items code_defs = Inl ValueError)"
    by (simp_all add: g stored_def_def)
  have "code visit_item = ''99213'' \<and> code_type visit_item = ''CPT''"
    by (simp add: visit_item_def)
  with e have "evaluate_item code_defs visit_item = Inl ValueError"
    "evaluate_line_items [visit_item] code_defs = Inl ValueError" by auto
  then show ?thesis using registry_rows_bad g l d by blast
qed

lemma parse_line_items_all_valid:
  assumes "parse_line_items (Some text) = Inr (items, [])" and "table_rows text = Inr raws"
  shows "parse_rows 2 raws = (items, [])"
proof -
  have nb: "text \<noteq> [] \<and> \<not> blank (Some text)"
    using assms(1) by (auto simp: parse_line_items_def split: if_splits)
  obtain fieldnames rest where h: "read_header (strip_fences text) = Inr (fieldnames, rest)"
    using assms(2) by (cases "read_header (strip_fences text)") (auto simp: table_rows_def Let_def)
  obtain raw_rows err where r: "read_rows (strip_fences text) fieldnames rest = (raw_rows, err)"
    by (cases "read_rows (strip_fences text) fieldnames rest")
  have err: "err = None" and raws: "raws = raw_rows"
    using assms(2) h r by (auto simp: table_rows_def Let_def split: option.splits)
  show ?thesis
    using assms(1) nb h r err raws
    by (auto simp: parse_line_items_def Let_def split: if_splits)
qed

lemma parse_rows_all_valid:
  "parse_rows i raws = (items, []) \<Longrightarrow>
     items = map (\<lambda>raw. projr (parse_row 0 raw)) raws \<and> (\<forall>raw\<in>set raws. \<not> isl (parse_row 0 raw))"
proof (induction raws arbitrary: i items)
  case Nil
  then show ?case by simp
next
  case (Cons raw raws)
  obtain rows errors where rec: "parse_rows (Suc i) raws = (rows, errors)"
    by (cases "parse_rows (Suc i) raws")
  show ?case
  proof (cases "parse_row i raw")
    case (Inl msg)
    then show ?thesis using Cons.prems rec by simp
  next
    case (Inr item)
    then have e: "errors = []" and it: "items = item # rows"
      using Cons.prems rec by auto
    from Cons.IH [of "Suc i" rows] rec e
    have ih: "rows = map (\<lambda>raw. projr (parse_row 0 raw)) raws \<and> (\<forall>raw\<in>set raws. \<not> isl (parse_row 0 raw))"
      by simp
    have "parse_row 0 raw = Inr item" using Inr by (rule parse_row_index)
    then show ?thesis using ih it by simp
  qed
qed

lemma parse_rows_permutation:
  assumes "parse_rows i raws = (items, [])" and "parse_rows j raws' = (items', [])"
    and "mset raws' = mset raws"
  shows "mset items' = mset items"
proof -
  have "items = map (\<lambda>raw. projr (parse_row 0 raw)) raws"
    and "items' = map (\<lambda>raw. projr (parse_row 0 raw)) raws'"
    using parse_rows_all_valid assms(1,2) by blast+
  then show ?thesis using assms(3) by (metis mset_map)
qed

lemma parse_rows_length:
  "parse_rows i raws = (items, []) \<Longrightarrow> length items = length raws"
  using parse_rows_all_valid [of i raws items] by simp

lemma evaluate_item_total:
  assumes "case code_defs (code item) of None \<Rightarrow> True
           | Some defn \<Rightarrow> code_type item \<noteq> def_code_type defn \<or> strptime_ymd (effective_date defn) \<noteq> None"
  shows "\<exists>p. evaluate_item code_defs item = Inr p"
proof (cases "evaluate_item code_defs item")
  case (Inl e)
  from lookup_rules_Inl [OF evaluate_item_Inl [OF Inl]] assms show ?thesis by auto
next
  case (Inr p)
  then show ?thesis by blast
qed

lemma evaluate_items_total:
  "(\<forall>x\<in>set xs. \<exists>p. evaluate_item code_defs x = Inr p) \<Longrightarrow>
   \<exists>ens cs. evaluate_items code_defs xs = Inr (ens, cs)"
  by (induction xs) (auto split: sum.splits prod.splits option.splits)

lemma evaluate_items_total_dates:
  assumes "effective_dates_parse code_defs items"
  shows "\<exists>ens cs. evaluate_items code_defs (sort_key line_id items) = Inr (ens, cs)"
proof -
  have "\<exists>p. evaluate_item code_defs x = Inr p" if "x \<in> set (sort_key line_id items)" for x
  proof -
    from that have "x \<in> set items" by simp
    with assms have "case code_defs (code x) of None \<Rightarrow> True
           | Some defn \<Rightarrow> code_type x \<noteq> def_code_type defn \<or> strptime_ymd (effective_date defn) \<noteq> None"
      by (simp add: effective_dates_parse_def list_all_iff)
    then show ?thesis by (rule evaluate_item_total)
  qed
  then show ?thesis using evaluate_items_total [of "sort_key line_id items" code_defs] by blast
qed

lemma evaluate_items_fields:
  "evaluate_items code_defs xs = Inr (ens, cs) \<Longrightarrow>
   list_all2 (\<lambda>en item. e_line_id en = line_id item \<and> e_code en = code item
                \<and> e_code_type en = code_type item \<and> e_units en = units item
                \<and> e_charge en = charge item \<and> e_dos en = strftime_ymd (date_of_service item)) ens xs"
proof (induction xs arbitrary: ens cs)
  case Nil
  then show ?case by simp
next
  case (Cons x xs)
  from Cons.prems obtain en c ens' cs' where
    e: "evaluate_item code_defs x = Inr (en, c)" and r: "evaluate_items code_defs xs = Inr (ens', cs')"
    and ens: "ens = en # ens'"
    by (auto split: sum.splits prod.splits)
  from evaluate_item_Inr [OF e] Cons.IH [OF r] ens show ?case by auto
qed

lemma add_dup_note_list_all2:
  "list_all2 (\<lambda>en item. e_line_id en = line_id item \<and> e_code en = code item
                \<and> e_code_type en = code_type item \<and> e_units en = units item
                \<and> e_charge en = charge item \<and> e_dos en = strftime_ymd (date_of_service item)) ens xs \<Longrightarrow>
   list_all2 (\<lambda>en item. e_line_id en = line_id item \<and> e_code en = code item
                \<and> e_code_type en = code_type item \<and> e_units en = units item
                \<and> e_charge en = charge item \<and> e_dos en = strftime_ymd (date_of_service item))
     (map (add_dup_note ids) ens) xs"
  by (simp add: list_all2_map1)

lemma map_line_id_sort_key:
  "map line_id (sort_key line_id xs) = sort (map line_id xs)"
proof -
  have "mset (map line_id (sort_key line_id xs)) = mset (map line_id xs)" by simp
  moreover have "sorted (map line_id (sort_key line_id xs))" by simp
  ultimately show ?thesis by (metis properties_for_sort)
qed

lemma sorted_ids_permutation:
  assumes "mset items' = mset items"
  shows "map line_id (sort_key line_id items') = map line_id (sort_key line_id items)"
proof -
  have "mset (map line_id items') = mset (map line_id items)" using assms by (metis mset_map)
  then have "sort (map line_id items') = sort (map line_id items)"
    by (metis mset_sort properties_for_sort sorted_sort)
  then show ?thesis by (simp add: map_line_id_sort_key)
qed

lemma evaluate_line_items_entries:
  assumes "effective_dates_parse code_defs items"
  shows "\<exists>section2 dup_groups clarifications.
           evaluate_line_items items code_defs = Inr (section2, dup_groups, clarifications)
         \<and> list_all2 (\<lambda>en item. e_line_id en = line_id item \<and> e_code en = code item
                \<and> e_code_type en = code_type item \<and> e_units en = units item
                \<and> e_charge en = charge item \<and> e_dos en = strftime_ymd (date_of_service item))
              section2 (sort_key line_id items)"
proof -
  from evaluate_items_total_dates [OF assms] obtain ens cs where
    e: "evaluate_items code_defs (sort_key line_id items) = Inr (ens, cs)" by blast
  let ?s2 = "map (add_dup_note (dup_line_ids (detect_duplicates items))) ens"
  have "evaluate_line_items items code_defs = Inr (?s2, detect_duplicates items, cs)"
    using e by (simp add: evaluate_line_items_def Let_def)
  moreover note add_dup_note_list_all2 [OF evaluate_items_fields [OF e]]
  ultimately show ?thesis by blast
qed

lemma list_all2_line_ids:
  "list_all2 (\<lambda>en item. e_line_id en = line_id item \<and> e_code en = code item
                \<and> e_code_type en = code_type item \<and> e_units en = units item
                \<and> e_charge en = charge item \<and> e_dos en = strftime_ymd (date_of_service item)) ens xs \<Longrightarrow>
   map e_line_id ens = map line_id xs \<and> length ens = length xs"
  by (induction ens xs rule: list_all2_induct) auto

lemma parse_swap_a: "parse_line_items (Some swap_text_a) = Inr ([swap_item 2, swap_item 1], [])"
  by code_simp

lemma parse_swap_b: "parse_line_items (Some swap_text_b) = Inr ([swap_item 1, swap_item 2], [])"
  by code_simp

lemma table_swap_a: "table_rows swap_text_a = Inr swap_rows_a"
proof -
  have h: "read_header (strip_fences swap_text_a) =
             Inr (Some header_names,
                  [''2,2024-01-01,99213,CPT,1,$100.00'' @ [NL], ''1,2024-01-01,99213,CPT,1,$100.00''])"
    by code_simp
  have r: "csv_rest (detect_delimiter (strip_fences swap_text_a))
             [''2,2024-01-01,99213,CPT,1,$100.00'' @ [NL], ''1,2024-01-01,99213,CPT,1,$100.00'']
           = ([swap_record ''2'', swap_record ''1''], None)"
    by code_simp
  show ?thesis
    unfolding table_rows_def Let_def h read_rows_def swap_rows_a_def
    by (simp only: sum.case prod.case option.case r)
qed

lemma table_swap_b: "table_rows swap_text_b = Inr swap_rows_b"
proof -
  have h: "read_header (strip_fences swap_text_b) =
             Inr (Some header_names,
                  [''1,2024-01-01,99213,CPT,1,$100.00'' @ [NL], ''2,2024-01-01,99213,CPT,1,$100.00''])"
    by code_simp
  have r: "csv_rest (detect_delimiter (strip_fences swap_text_b))
             [''1,2024-01-01,99213,CPT,1,$100.00'' @ [NL], ''2,2024-01-01,99213,CPT,1,$100.00'']
           = ([swap_record ''1'', swap_record ''2''], None)"
    by code_simp
  show ?thesis
    unfolding table_rows_def Let_def h read_rows_def swap_rows_b_def
    by (simp only: sum.case prod.case option.case r)
qed

lemma swap_rows_permuted: "mset swap_rows_b = mset swap_rows_a"
  by (simp add: swap_rows_a_def swap_rows_b_def dict_rows_def swap_record_def)

text \<open>
  Claim C1 fails: a bill with one valid row is parsed into one item, the registry with the
  effective date \<open>soon\<close> is loaded, and \<open>evaluate_line_items\<close> raises ValueError instead of
  returning an entry.
\<close>

theorem evaluation_raises_on_registry_date:
  "parse_line_items (Some visit_text) = Inr ([visit_item], [])
   \<and> loaded_effective_date (load_code_definitions (Some bad_registry_text)) (code visit_item) = Inr (Some ''soon'')
   \<and> evaluate_loaded (load_code_definitions (Some bad_registry_text)) [visit_item] = Inl ValueError"
  by code_simp

text \<open>
  Claim C1, amended. When every row of the input is valid and every registry entry that an
  item reaches with a matching \<open>code_type\<close> has an \<open>effective_date\<close> that \<open>strptime\<close>
  accepts, \<open>evaluate_line_items\<close> returns one entry per input row; the entries are the items
  in the order of the stable sort by \<open>line_id\<close>, so their \<open>line_id\<close>s ascend; and an input
  with the same rows in another order gives the same sequence of \<open>line_id\<close>s.
\<close>

theorem one_entry_per_row_sorted:
  assumes "parse_line_items (Some text) = Inr (items, [])" and "table_rows text = Inr raws"
    and "effective_dates_parse code_defs items"
  shows "\<exists>section2 dup_groups clarifications.
           evaluate_line_items items code_defs = Inr (section2, dup_groups, clarifications)
         \<and> length section2 = length raws
         \<and> sorted (map e_line_id section2)
         \<and> list_all2 (\<lambda>en item. e_line_id en = line_id item \<and> e_code en = code item
                \<and> e_code_type en = code_type item \<and> e_units en = units item
                \<and> e_charge en = charge item \<and> e_dos en = strftime_ymd (date_of_service item))
              section2 (sort_key line_id items)
         \<and> (\<forall>text' items' raws'.
               parse_line_items (Some text') = Inr (items', []) \<and> table_rows text' = Inr raws'
               \<and> mset raws' = mset raws \<longrightarrow>
               (\<exists>section2' dup_groups' clarifications'.
                  evaluate_line_items items' code_defs = Inr (section2', dup_groups', clarifications')
                  \<and> map e_line_id section2' = map e_line_id section2))"
proof -
  let ?R = "\<lambda>en item. e_line_id en = line_id item \<and> e_code en = code item
                \<and> e_code_type en = code_type item \<and> e_units en = units item
                \<and> e_charge en = charge item \<and> e_dos en = strftime_ymd (date_of_service item)"
  have pr: "parse_rows 2 raws = (items, [])"
    using parse_line_items_all_valid [OF assms(1,2)] .
  from evaluate_line_items_entries [OF assms(3)] obtain section2 dup_groups clarifications where
    ev: "evaluate_line_items items code_defs = Inr (section2, dup_groups, clarifications)"
    and rel: "list_all2 ?R section2 (sort_key line_id items)" by blast
  from list_all2_line_ids [OF rel]
  have ids: "map e_line_id section2 = map line_id (sort_key line_id items)"
    and len: "length section2 = length items" by simp_all
  have len': "length section2 = length raws" using len parse_rows_length [OF pr] by simp
  have srt: "sorted (map e_line_id section2)" unfolding ids by simp
  have perm: "\<exists>section2' dup_groups' clarifications'.
                  evaluate_line_items items' code_defs = Inr (section2', dup_groups', clarifications')
                  \<and> map e_line_id section2' = map e_line_id section2"
    if p': "parse_line_items (Some text') = Inr (items', [])" and t': "table_rows text' = Inr raws'"
      and m: "mset raws' = mset raws" for text' items' raws'
  proof -
    have pr': "parse_rows 2 raws' = (items', [])"
      using parse_line_items_all_valid [OF p' t'] .
    have mi: "mset items' = mset items" using parse_rows_permutation [OF pr pr' m] .
    then have "set items' = set items" by (rule mset_eq_setD)
    then have "effective_dates_parse code_defs items'"
      using assms(3) by (simp add: effective_dates_parse_def list_all_iff)
    from evaluate_line_items_entries [OF this] obtain section2' dup_groups' clarifications' where
      ev': "evaluate_line_items items' code_defs = Inr (section2', dup_groups', clarifications')"
      and rel': "list_all2 ?R section2' (sort_key line_id items')" by blast
    have "map e_line_id section2' = map line_id (sort_key line_id items')"
      using list_all2_line_ids [OF rel'] by simp
    also have "\<dots> = map e_line_id section2"
      using sorted_ids_permutation [OF mi] ids by simp
    finally show ?thesis using ev' by blast
  qed
  show ?thesis using ev len' srt rel perm by blast
qed

theorem one_entry_per_row_sorted_witness:
  "parse_line_items (Some swap_text_a) = Inr ([swap_item 2, swap_item 1], [])
   \<and> table_rows swap_text_a = Inr swap_rows_a
   \<and> effective_dates_parse defs0 [swap_item 2, swap_item 1]
   \<and> (\<exists>section2 dup_groups clarifications.
         evaluate_line_items [swap_item 2, swap_item 1] defs0 = Inr (section2, dup_groups, clarifications)
         \<and> length section2 = length swap_rows_a \<and> sorted (map e_line_id section2))"
proof -
  have h3: "effective_dates_parse defs0 [swap_item 2, swap_item 1]" by code_simp
  from one_entry_per_row_sorted [OF parse_swap_a table_swap_a h3]
  have "\<exists>section2 dup_groups clarifications.
         evaluate_line_items [swap_item 2, swap_item 1] defs0 = Inr (section2, dup_groups, clarifications)
         \<and> length section2 = length swap_rows_a \<and> sorted (map e_line_id section2)"
    by blast
  then show ?thesis using parse_swap_a table_swap_a h3 by blast
qed

























end
